theory Spec2Isabelle
  imports Main "HOL-Library.Word"
begin

unbundle bit_operations_syntax

section \<open>The seccomp filter generator of Emacs (lib-src/seccomp-filter.c)\<close>

text \<open>
  The program builds a libseccomp filter context: a default action, three filter
  attributes and a table of rules, and exports it twice, as a BPF program and as
  pseudo filter code. The model has three layers:
  \<^item> the values of the system headers, which the program only names, as a parameter;
  \<^item> the filter context with the meaning of its rules, which is libseccomp's and the
    kernel's and is taken from the specification's data model;
  \<^item> \<open>main\<close> itself, statement by statement, over a world that records every library
    call and its result.
\<close>

subsection \<open>Header constants\<close>

text \<open>
  The macros of \<open>limits.h\<close>, \<open>sys/mman.h\<close>, \<open>fcntl.h\<close>, \<open>linux/futex.h\<close>,
  \<open>sched.h\<close>, \<open>sys/ioctl.h\<close>, \<open>sys/prctl.h\<close>, \<open>time.h\<close>, \<open>unistd.h\<close> and
  \<open>errno.h\<close> that \<open>main\<close> mentions, and the three facts about the C implementation
  its assertions inspect. Their values are not part of the program: a platform assigns
  each an integer.
\<close>

datatype hdr =
    CHAR_BIT | SIZEOF_INT | INT_MIN | INT_MAX | SIZEOF_VOID_PTR | NULL_AS_UINTPTR
  | PROT_NONE | PROT_READ | PROT_WRITE | PROT_EXEC
  | MAP_PRIVATE | MAP_SHARED | MAP_FILE | MAP_ANONYMOUS | MAP_FIXED | MAP_DENYWRITE
  | MAP_STACK | MAP_NORESERVE
  | O_RDONLY | O_WRONLY | O_RDWR | O_CREAT | O_TRUNC | O_BINARY | O_CLOEXEC | O_PATH
  | O_DIRECTORY
  | FUTEX_WAKE_PRIVATE | STDIN_FILENO | TIOCGPGRP | F_GETFL | CLOCK_REALTIME | PR_SET_NAME
  | CLONE_VM | CLONE_FS | CLONE_FILES | CLONE_SYSVSEM | CLONE_SIGHAND | CLONE_THREAD
  | CLONE_SETTLS | CLONE_PARENT_SETTID | CLONE_CHILD_CLEARTID
  | EPERM | EACCES | EXIT_FAILURE

type_synonym platform = "hdr \<Rightarrow> int"

definition INT32_MIN :: int where
  "INT32_MIN = - (2 ^ 31)"

definition INT32_MAX :: int where
  "INT32_MAX = 2 ^ 31 - 1"

text \<open>
  The values on x86-64 Linux with glibc, as one concrete platform to evaluate the
  program on. \<open>O_BINARY\<close> is not a Linux flag; the portability layer defines it as 0.
\<close>

fun linux_x86_64 :: platform where
  "linux_x86_64 CHAR_BIT = 8"
| "linux_x86_64 SIZEOF_INT = 4"
| "linux_x86_64 INT_MIN = - 2147483648"
| "linux_x86_64 INT_MAX = 2147483647"
| "linux_x86_64 SIZEOF_VOID_PTR = 8"
| "linux_x86_64 NULL_AS_UINTPTR = 0"
| "linux_x86_64 PROT_NONE = 0"
| "linux_x86_64 PROT_READ = 1"
| "linux_x86_64 PROT_WRITE = 2"
| "linux_x86_64 PROT_EXEC = 4"
| "linux_x86_64 MAP_PRIVATE = 2"
| "linux_x86_64 MAP_SHARED = 1"
| "linux_x86_64 MAP_FILE = 0"
| "linux_x86_64 MAP_ANONYMOUS = 32"
| "linux_x86_64 MAP_FIXED = 16"
| "linux_x86_64 MAP_DENYWRITE = 2048"
| "linux_x86_64 MAP_STACK = 131072"
| "linux_x86_64 MAP_NORESERVE = 16384"
| "linux_x86_64 O_RDONLY = 0"
| "linux_x86_64 O_WRONLY = 1"
| "linux_x86_64 O_RDWR = 2"
| "linux_x86_64 O_CREAT = 64"
| "linux_x86_64 O_TRUNC = 512"
| "linux_x86_64 O_BINARY = 0"
| "linux_x86_64 O_CLOEXEC = 524288"
| "linux_x86_64 O_PATH = 2097152"
| "linux_x86_64 O_DIRECTORY = 65536"
| "linux_x86_64 FUTEX_WAKE_PRIVATE = 129"
| "linux_x86_64 STDIN_FILENO = 0"
| "linux_x86_64 TIOCGPGRP = 21519"
| "linux_x86_64 F_GETFL = 3"
| "linux_x86_64 CLOCK_REALTIME = 0"
| "linux_x86_64 PR_SET_NAME = 15"
| "linux_x86_64 CLONE_VM = 256"
| "linux_x86_64 CLONE_FS = 512"
| "linux_x86_64 CLONE_FILES = 1024"
| "linux_x86_64 CLONE_SYSVSEM = 262144"
| "linux_x86_64 CLONE_SIGHAND = 2048"
| "linux_x86_64 CLONE_THREAD = 65536"
| "linux_x86_64 CLONE_SETTLS = 524288"
| "linux_x86_64 CLONE_PARENT_SETTID = 1048576"
| "linux_x86_64 CLONE_CHILD_CLEARTID = 2097152"
| "linux_x86_64 EPERM = 1"
| "linux_x86_64 EACCES = 13"
| "linux_x86_64 EXIT_FAILURE = 1"

subsection \<open>The filter context\<close>

text \<open>
  \<open>seccomp.h\<close> and libseccomp are not among the sources: the types of the filter
  context, the comparator macros and the library calls are taken from the data model of
  the specification, under the names the source uses. A syscall is identified by its
  name, the argument of \<open>SCMP_SYS\<close>.
\<close>

text \<open>
  Modelled from the spec: the actions of \<open>seccomp.h\<close>. An Action is one of allow,
  deny-with-error(code) and kill-process.
\<close>

datatype action = SCMP_ACT_ALLOW | SCMP_ACT_ERRNO int | SCMP_ACT_KILL_PROCESS

text \<open>
  Modelled from the spec: the comparison operators of \<open>seccomp.h\<close> that the source
  uses. Operators include exact-equal, not-equal and masked-equal.
\<close>

datatype scmp_compare = SCMP_CMP_NE | SCMP_CMP_EQ | SCMP_CMP_MASKED_EQ

type_synonym scmp_datum_t = "64 word"

text \<open>
  Modelled from the spec: \<open>struct scmp_arg_cmp\<close> of \<open>seccomp.h\<close>. An
  ArgumentComparator is (argument index, comparison operator, mask, expected value, word
  width). \<open>datum_a\<close> and \<open>datum_b\<close> are the two data of the source's macro calls: the
  expected value for \<open>SCMP_CMP_EQ\<close> and \<open>SCMP_CMP_NE\<close>, the mask and the expected
  value for \<open>SCMP_CMP_MASKED_EQ\<close>.
\<close>

record scmp_arg_cmp =
  cmp_arg :: nat
  cmp_op :: scmp_compare
  datum_a :: scmp_datum_t
  datum_b :: scmp_datum_t
  cmp_width :: nat

text \<open>
  Modelled from the spec: a rule of the filter, which libseccomp keeps. A Rule is
  (action, syscall identifier, ordered set of ArgumentComparators).
\<close>

record rule =
  rule_action :: action
  rule_syscall :: string
  rule_args :: "scmp_arg_cmp list"

text \<open>
  Modelled from the spec: the filter attributes of \<open>seccomp.h\<close> that the source sets.
  An Attribute is a (name, integer value) pair applied to the policy as a whole; the
  value of the bad-architecture attribute is the code of an action, kept here as the
  action.
\<close>

datatype scmp_filter_attr =
  SCMP_FLTATR_ACT_BADARCH | SCMP_FLTATR_CTL_NNP | SCMP_FLTATR_CTL_TSYNC

datatype attr_value = Action_value action | Flag_value nat

text \<open>
  Modelled from the spec: the object behind \<open>scmp_filter_ctx\<close>. The PolicyContext
  holds the Attributes and the RuleTable, the ordered collection of Rules plus one
  default Action applied when no rule matches.
\<close>

record filter_ctx =
  act_default :: action
  attrs :: "scmp_filter_attr \<rightharpoonup> attr_value"
  rules :: "rule list"

text \<open>The conversion to \<open>uint32_t\<close>.\<close>

definition u32 :: "int \<Rightarrow> 32 word" where
  "u32 z = word_of_int z"

text \<open>
  The data of a comparator macro call; the macros take one or two. The source gives the
  mask alone in the two \<open>mmap\<close> rules, and a datum left out is zero, as C initialises
  the members an initialiser does not name.
\<close>

fun datum :: "nat \<Rightarrow> int list \<Rightarrow> int" where
  "datum n [] = 0"
| "datum 0 (z # zs) = z"
| "datum (Suc n) (z # zs) = datum n zs"

text \<open>
  Modelled from the spec: the macros \<open>SCMP_An_32\<close> of \<open>seccomp.h\<close>. The comparator
  is a test of argument register \<open>n\<close> at the declared width of 32 bits; its data are
  converted to \<open>uint32_t\<close>.
\<close>

definition SCMP_CMP32 :: "nat \<Rightarrow> scmp_compare \<Rightarrow> int list \<Rightarrow> scmp_arg_cmp" where
  "SCMP_CMP32 n cmp zs =
     \<lparr>cmp_arg = n, cmp_op = cmp, datum_a = ucast (u32 (datum 0 zs)),
      datum_b = ucast (u32 (datum 1 zs)), cmp_width = 32\<rparr>"

text \<open>
  Modelled from the spec: the macros \<open>SCMP_An_64\<close> of \<open>seccomp.h\<close>. The comparator
  is a test of argument register \<open>n\<close> at the declared width of 64 bits; its data are
  converted to \<open>scmp_datum_t\<close>, an unsigned 64-bit integer.
\<close>

definition SCMP_CMP64 :: "nat \<Rightarrow> scmp_compare \<Rightarrow> int list \<Rightarrow> scmp_arg_cmp" where
  "SCMP_CMP64 n cmp zs =
     \<lparr>cmp_arg = n, cmp_op = cmp, datum_a = word_of_int (datum 0 zs),
      datum_b = word_of_int (datum 1 zs), cmp_width = 64\<rparr>"

abbreviation "SCMP_A0_32 \<equiv> SCMP_CMP32 0"
abbreviation "SCMP_A1_32 \<equiv> SCMP_CMP32 1"
abbreviation "SCMP_A2_32 \<equiv> SCMP_CMP32 2"
abbreviation "SCMP_A3_32 \<equiv> SCMP_CMP32 3"
abbreviation "SCMP_A0_64 \<equiv> SCMP_CMP64 0"
abbreviation "SCMP_A2_64 \<equiv> SCMP_CMP64 2"

subsection \<open>What a filter context decides\<close>

text \<open>
  The matcher is the kernel's, run on the program libseccomp compiles; neither is among
  the sources. A syscall invocation is the syscall and its six argument registers.
\<close>

record invocation =
  nr :: string
  args :: "nat \<Rightarrow> 64 word"

text \<open>
  Modelled from the spec: the value a comparator tests. A comparator is a single
  boolean test over one syscall argument register at a declared width (32- or 64-bit).
\<close>

definition reg :: "scmp_arg_cmp \<Rightarrow> invocation \<Rightarrow> 64 word" where
  "reg c iv = take_bit (cmp_width c) (args iv (cmp_arg c))"

text \<open>
  Modelled from the spec: the test of one comparator. The operators are exact-equal,
  not-equal and masked-equal (value compared only where mask bits are set).
\<close>

fun cmp_holds :: "scmp_arg_cmp \<Rightarrow> invocation \<Rightarrow> bool" where
  "cmp_holds c iv =
     (case cmp_op c of
        SCMP_CMP_NE \<Rightarrow> reg c iv \<noteq> datum_a c
      | SCMP_CMP_EQ \<Rightarrow> reg c iv = datum_a c
      | SCMP_CMP_MASKED_EQ \<Rightarrow> reg c iv AND datum_a c = datum_b c)"

text \<open>
  Modelled from the spec: the test of the comparators of a rule, one after the other.
  Every comparator in the set must evaluate true (conjunction); an empty comparator set
  matches unconditionally.
\<close>

primrec cmps_hold :: "scmp_arg_cmp list \<Rightarrow> invocation \<Rightarrow> bool" where
  "cmps_hold [] iv = True"
| "cmps_hold (c # cs) iv = (if cmp_holds c iv then cmps_hold cs iv else False)"

text \<open>
  Modelled from the spec: the match of a rule. A rule matches a syscall invocation iff
  the syscall identifier matches and every comparator in its set evaluates true.
\<close>

definition rule_matches :: "rule \<Rightarrow> invocation \<Rightarrow> bool" where
  "rule_matches r iv = (if rule_syscall r = nr iv then cmps_hold (rule_args r) iv else False)"

text \<open>
  Modelled from the spec: the rules of a table that match an invocation. Multiple rules
  may target the same syscall; they are independent alternatives.
\<close>

primrec matching :: "rule list \<Rightarrow> invocation \<Rightarrow> rule list" where
  "matching [] iv = []"
| "matching (r # rs) iv = (if rule_matches r iv then r # matching rs iv else matching rs iv)"

text \<open>
  Modelled from the spec: what a context decides for an invocation. The default action
  is applied when no rule matches; the matcher does not guarantee an evaluation order
  among rules, so where rules match the decision is the set of their actions, one
  action unless the rules conflict.
\<close>

definition policy_actions :: "filter_ctx \<Rightarrow> invocation \<Rightarrow> action set" where
  "policy_actions c iv =
     (case matching (rules c) iv of
        [] \<Rightarrow> {act_default c}
      | r # rs \<Rightarrow> set (map rule_action (r # rs)))"

subsection \<open>The world the program runs in\<close>

text \<open>
  Every call into libseccomp or the C library is recorded with its result; the results
  come from the environment, the \<open>k\<close>-th call of a run getting \<open>result env k\<close> and
  leaving \<open>errno env k\<close> in \<open>errno\<close>. \<open>TEMP_FAILURE_RETRY (open (...))\<close> is one
  such call: the environment gives the value the glibc macro finally yields.
\<close>

datatype export_function = seccomp_export_bpf | seccomp_export_pfc

datatype call =
    Seccomp_init action
  | Atexit
  | Seccomp_attr_set scmp_filter_attr attr_value
  | Seccomp_rule_add_array action string nat "scmp_arg_cmp list"
  | Open_file string int int
  | Seccomp_export export_function "filter_ctx option" int
  | Close_file int
  | Seccomp_release

record env =
  result :: "nat \<Rightarrow> int"
  errno :: "nat \<Rightarrow> int"

text \<open>
  The state of the process: the global \<open>ctx\<close> (\<open>None\<close> for a null or released
  context), whether \<open>release_context\<close> is registered to run at exit, the calls made so
  far and the diagnostics printed.
\<close>

record world =
  ctx :: "filter_ctx option"
  release_at_exit :: bool
  trace :: "(call \<times> int) list"
  stderr :: "(int \<times> string \<times> string list) list"

definition world_init :: world where
  "world_init = \<lparr>ctx = None, release_at_exit = False, trace = [], stderr = []\<rparr>"

definition lib_call :: "env \<Rightarrow> call \<Rightarrow> world \<Rightarrow> int \<times> world" where
  "lib_call env c w =
     (let r = result env (length (trace w)) in (r, w\<lparr>trace := trace w @ [(c, r)]\<rparr>))"

text \<open>
  Modelled from the spec: the context \<open>seccomp_init\<close> of libseccomp creates. It holds
  the default action, no attribute and no rule.
\<close>

definition new_ctx :: "action \<Rightarrow> filter_ctx" where
  "new_ctx def_action = \<lparr>act_default = def_action, attrs = Map.empty, rules = []\<rparr>"

text \<open>
  Modelled from the spec: \<open>seccomp_init\<close> of libseccomp. The PolicyContext is created
  once at process start; the call returns it or, on failure, a null pointer (result 0).
\<close>

definition seccomp_init :: "env \<Rightarrow> action \<Rightarrow> world \<Rightarrow> world" where
  "seccomp_init env def_action w =
     (let (r, w') = lib_call env (Seccomp_init def_action) w
      in w'\<lparr>ctx := (if r = 0 then None else Some (new_ctx def_action))\<rparr>)"

text \<open>
  Modelled from the spec: the effect of a successful \<open>seccomp_attr_set\<close> on the
  context. The attribute is applied to the PolicyContext; the side effect mutates
  PolicyContext.attributes only.
\<close>

definition attr_set :: "scmp_filter_attr \<Rightarrow> attr_value \<Rightarrow> filter_ctx \<Rightarrow> filter_ctx" where
  "attr_set attr v c = c\<lparr>attrs := (attrs c)(attr \<mapsto> v)\<rparr>"

text \<open>
  Modelled from the spec: \<open>seccomp_attr_set\<close> of libseccomp. Each application either
  succeeds or reports a failure, a negative status.
\<close>

definition seccomp_attr_set ::
  "env \<Rightarrow> scmp_filter_attr \<Rightarrow> attr_value \<Rightarrow> world \<Rightarrow> int \<times> world" where
  "seccomp_attr_set env attr v w =
     (let (r, w') = lib_call env (Seccomp_attr_set attr v) w
      in (r, if r < 0 then w' else w'\<lparr>ctx := map_option (attr_set attr v) (ctx w')\<rparr>))"

text \<open>
  Modelled from the spec: the effect of a successful \<open>seccomp_rule_add_array\<close> on the
  context. The Rule, with the first \<open>arg_cnt\<close> comparators of the array, is appended
  to PolicyContext.ruleTable.
\<close>

definition rule_add ::
  "action \<Rightarrow> string \<Rightarrow> nat \<Rightarrow> scmp_arg_cmp list \<Rightarrow> filter_ctx \<Rightarrow> filter_ctx" where
  "rule_add act sc arg_cnt arg_array c =
     c\<lparr>rules := rules c @
          [\<lparr>rule_action = act, rule_syscall = sc, rule_args = take arg_cnt arg_array\<rparr>]\<rparr>"

text \<open>
  Modelled from the spec: \<open>seccomp_rule_add_array\<close> of libseccomp. The rule is added,
  or it could not be added and the call reports a negative status.
\<close>

definition seccomp_rule_add_array ::
  "env \<Rightarrow> action \<Rightarrow> string \<Rightarrow> nat \<Rightarrow> scmp_arg_cmp list \<Rightarrow> world \<Rightarrow> int \<times> world" where
  "seccomp_rule_add_array env act sc arg_cnt arg_array w =
     (let (r, w') = lib_call env (Seccomp_rule_add_array act sc arg_cnt arg_array) w
      in (r, if r < 0 then w'
             else w'\<lparr>ctx := map_option (rule_add act sc arg_cnt arg_array) (ctx w')\<rparr>))"

text \<open>
  Modelled from the spec: \<open>seccomp_export_bpf\<close> and \<open>seccomp_export_pfc\<close> of
  libseccomp. The PolicyContext is consumed read-only by the export (the source passes
  a \<open>const scmp_filter_ctx\<close>); the call records the context it is given and the
  descriptor it writes to.
\<close>

definition seccomp_export :: "env \<Rightarrow> export_function \<Rightarrow> int \<Rightarrow> world \<Rightarrow> int \<times> world" where
  "seccomp_export env function fd w = lib_call env (Seccomp_export function (ctx w) fd) w"

text \<open>
  Modelled from the spec: \<open>seccomp_release\<close> of libseccomp. The PolicyContext is
  destroyed.
\<close>

definition seccomp_release :: "world \<Rightarrow> world" where
  "seccomp_release w = w\<lparr>trace := trace w @ [(Seccomp_release, 0)], ctx := None\<rparr>"

subsection \<open>The functions and macros of the program\<close>

text \<open>
  A function that may end the process returns \<open>Inl\<close> of the exit status and the final
  world, or \<open>Inr\<close> of the world it continues in. \<open>exit\<close> runs the handler registered
  with \<open>atexit\<close>. A diagnostic is kept as the error code, the format and the arguments
  that are strings at run time; \<open>fail\<close> prints the message of the error code after it
  when the code is not 0. The mode \<open>0644\<close> of \<open>open\<close> is 420.
\<close>

definition release_context :: "world \<Rightarrow> world" where
  "release_context w = seccomp_release w"

definition exit_process :: "int \<Rightarrow> world \<Rightarrow> int \<times> world" where
  "exit_process status w = (status, if release_at_exit w then release_context w else w)"

definition fail :: "platform \<Rightarrow> int \<Rightarrow> string \<Rightarrow> string list \<Rightarrow> world \<Rightarrow> int \<times> world" where
  "fail p error format fargs w =
     exit_process (p EXIT_FAILURE) (w\<lparr>stderr := stderr w @ [(error, format, fargs)]\<rparr>)"

definition set_attribute ::
  "env \<Rightarrow> platform \<Rightarrow> scmp_filter_attr \<Rightarrow> attr_value \<Rightarrow> world \<Rightarrow> int \<times> world + world" where
  "set_attribute env p attr v w =
     (let (status, w') = seccomp_attr_set env attr v w
      in if status < 0 then Inl (fail p (- status) ''seccomp_attr_set (ctx, %u, %u)'' [] w')
         else Inr w')"

definition RULE ::
  "env \<Rightarrow> platform \<Rightarrow> action \<Rightarrow> string \<Rightarrow> scmp_arg_cmp list \<Rightarrow> world \<Rightarrow> int \<times> world + world" where
  "RULE env p act sc arg_array w =
     (let arg_cnt = length arg_array;
          (status, w') = seccomp_rule_add_array env act sc arg_cnt arg_array w
      in if status < 0
         then Inl (fail p (- status) ''seccomp_rule_add_array (%s, %s, %d, {%s})'' [] w')
         else Inr w')"

definition export_name :: "export_function \<Rightarrow> string" where
  "export_name function =
     (case function of seccomp_export_bpf \<Rightarrow> ''seccomp_export_bpf''
                     | seccomp_export_pfc \<Rightarrow> ''seccomp_export_pfc'')"

definition export_filter ::
  "env \<Rightarrow> platform \<Rightarrow> string \<Rightarrow> export_function \<Rightarrow> string \<Rightarrow> world \<Rightarrow> int \<times> world + world" where
  "export_filter env p file function name w =
     (let (fd, w1) = lib_call env
            (Open_file file
               (p O_WRONLY OR p O_CREAT OR p O_TRUNC OR p O_BINARY OR p O_CLOEXEC) 420) w
      in if fd < 0 then Inl (fail p (errno env (length (trace w))) ''open %s'' [file] w1)
         else
           let (status, w2) = seccomp_export env function fd w1
           in if status < 0 then Inl (fail p (- status) ''%s'' [name] w2)
              else
                let (closed, w3) = lib_call env (Close_file fd) w2
                in if closed \<noteq> 0 then Inl (fail p (errno env (length (trace w2))) ''close'' [] w3)
                   else Inr w3)"

definition EXPORT_FILTER ::
  "env \<Rightarrow> platform \<Rightarrow> string \<Rightarrow> export_function \<Rightarrow> world \<Rightarrow> int \<times> world + world" where
  "EXPORT_FILTER env p file function w = export_filter env p file function (export_name function) w"

subsection \<open>The body of main\<close>

text \<open>
  The statements of \<open>main\<close> after the context is created, in the order of the source:
  those that build the context, and after them the two exports.
\<close>

datatype stmt =
    Set_attribute scmp_filter_attr attr_value
  | Verify bool
  | Rule action string "scmp_arg_cmp list"
  | Export_filter string export_function

definition build_body :: "platform \<Rightarrow> stmt list" where
  "build_body p =
    [Set_attribute SCMP_FLTATR_ACT_BADARCH (Action_value SCMP_ACT_KILL_PROCESS),
     Set_attribute SCMP_FLTATR_CTL_NNP (Flag_value 1),
     Set_attribute SCMP_FLTATR_CTL_TSYNC (Flag_value 1),
     Verify (p CHAR_BIT = 8),
     Verify (p SIZEOF_INT = 4 \<and> p INT_MIN = INT32_MIN \<and> p INT_MAX = INT32_MAX),
     Verify (p SIZEOF_VOID_PTR = 8),
     Verify (p NULL_AS_UINTPTR = 0),
     Rule SCMP_ACT_ALLOW ''exit'' [],
     Rule SCMP_ACT_ALLOW ''exit_group'' [],
     Verify (p MAP_PRIVATE \<noteq> 0),
     Verify (p MAP_SHARED \<noteq> 0),
     Rule SCMP_ACT_ALLOW ''mmap''
       [SCMP_A2_32 SCMP_CMP_MASKED_EQ [NOT (p PROT_NONE OR p PROT_READ OR p PROT_WRITE)],
        SCMP_A3_32 SCMP_CMP_MASKED_EQ
          [NOT (p MAP_PRIVATE OR p MAP_FILE OR p MAP_ANONYMOUS OR p MAP_FIXED
                OR p MAP_DENYWRITE OR p MAP_STACK OR p MAP_NORESERVE),
           0]],
     Rule SCMP_ACT_ALLOW ''mmap''
       [SCMP_A2_32 SCMP_CMP_MASKED_EQ [NOT (p PROT_NONE OR p PROT_READ OR p PROT_EXEC)],
        SCMP_A3_32 SCMP_CMP_MASKED_EQ
          [NOT (p MAP_PRIVATE OR p MAP_ANONYMOUS OR p MAP_FIXED OR p MAP_DENYWRITE), 0]],
     Rule SCMP_ACT_ALLOW ''munmap'' [],
     Rule SCMP_ACT_ALLOW ''mprotect''
       [SCMP_A2_32 SCMP_CMP_MASKED_EQ
          [NOT (p PROT_NONE OR p PROT_READ OR p PROT_WRITE), 0]],
     Rule SCMP_ACT_ALLOW ''futex'' [SCMP_A1_32 SCMP_CMP_EQ [p FUTEX_WAKE_PRIVATE]],
     Rule SCMP_ACT_ALLOW ''brk'' [],
     Rule SCMP_ACT_ALLOW ''uname'' [],
     Rule SCMP_ACT_ALLOW ''getuid'' [],
     Rule SCMP_ACT_ALLOW ''geteuid'' [],
     Rule SCMP_ACT_ALLOW ''getpid'' [],
     Rule SCMP_ACT_ALLOW ''getpgrp'' [],
     Rule SCMP_ACT_ALLOW ''read'' [],
     Rule SCMP_ACT_ALLOW ''write'' [],
     Rule SCMP_ACT_ALLOW ''close'' [],
     Rule SCMP_ACT_ALLOW ''lseek'' [],
     Rule SCMP_ACT_ALLOW ''dup'' [],
     Rule SCMP_ACT_ALLOW ''dup2'' [],
     Rule SCMP_ACT_ALLOW ''fstat'' [],
     Rule SCMP_ACT_ALLOW ''access'' [],
     Rule SCMP_ACT_ALLOW ''faccessat'' [],
     Rule SCMP_ACT_ALLOW ''stat'' [],
     Rule SCMP_ACT_ALLOW ''stat64'' [],
     Rule SCMP_ACT_ALLOW ''lstat'' [],
     Rule SCMP_ACT_ALLOW ''lstat64'' [],
     Rule SCMP_ACT_ALLOW ''fstatat64'' [],
     Rule SCMP_ACT_ALLOW ''newfstatat'' [],
     Rule SCMP_ACT_ALLOW ''readlink'' [],
     Rule SCMP_ACT_ALLOW ''readlinkat'' [],
     Rule SCMP_ACT_ALLOW ''getcwd'' [],
     Verify (p O_WRONLY \<noteq> 0),
     Verify (p O_RDWR \<noteq> 0),
     Verify (p O_CREAT \<noteq> 0),
     Rule SCMP_ACT_ALLOW ''open''
       [SCMP_A1_32 SCMP_CMP_MASKED_EQ
          [NOT (p O_RDONLY OR p O_BINARY OR p O_CLOEXEC OR p O_PATH OR p O_DIRECTORY), 0]],
     Rule SCMP_ACT_ALLOW ''openat''
       [SCMP_A2_32 SCMP_CMP_MASKED_EQ
          [NOT (p O_RDONLY OR p O_BINARY OR p O_CLOEXEC OR p O_PATH OR p O_DIRECTORY), 0]],
     Rule SCMP_ACT_ALLOW ''ioctl''
       [SCMP_A0_32 SCMP_CMP_EQ [p STDIN_FILENO], SCMP_A1_32 SCMP_CMP_EQ [p TIOCGPGRP]],
     Rule SCMP_ACT_ALLOW ''fcntl'' [SCMP_A1_32 SCMP_CMP_EQ [p F_GETFL]],
     Rule SCMP_ACT_ALLOW ''fcntl64'' [SCMP_A1_32 SCMP_CMP_EQ [p F_GETFL]],
     Rule SCMP_ACT_ALLOW ''getrandom'' [],
     Rule SCMP_ACT_ALLOW ''umask'' [],
     Rule SCMP_ACT_ALLOW ''pipe'' [],
     Rule SCMP_ACT_ALLOW ''pipe2'' [],
     Rule SCMP_ACT_ALLOW ''getrlimit'' [],
     Rule SCMP_ACT_ALLOW ''prlimit64''
       [SCMP_A0_32 SCMP_CMP_EQ [0], SCMP_A2_64 SCMP_CMP_EQ [0]],
     Rule (SCMP_ACT_ERRNO (p EPERM)) ''prlimit64''
       [SCMP_A0_32 SCMP_CMP_EQ [0], SCMP_A2_64 SCMP_CMP_NE [0]],
     Rule SCMP_ACT_ALLOW ''sigaction'' [],
     Rule SCMP_ACT_ALLOW ''rt_sigaction'' [],
     Rule SCMP_ACT_ALLOW ''sigprocmask'' [],
     Rule SCMP_ACT_ALLOW ''rt_sigprocmask'' [],
     Rule SCMP_ACT_ALLOW ''clock_gettime'' [SCMP_A0_32 SCMP_CMP_EQ [p CLOCK_REALTIME]],
     Rule SCMP_ACT_ALLOW ''time'' [],
     Rule SCMP_ACT_ALLOW ''gettimeofday'' [],
     Rule SCMP_ACT_ALLOW ''timer_create'' [],
     Rule SCMP_ACT_ALLOW ''timerfd_create'' [],
     Rule SCMP_ACT_ALLOW ''clone''
       [SCMP_A0_64 SCMP_CMP_MASKED_EQ
          [NOT (p CLONE_VM OR p CLONE_FS OR p CLONE_FILES OR p CLONE_SYSVSEM
                OR p CLONE_SIGHAND OR p CLONE_THREAD OR p CLONE_SETTLS
                OR p CLONE_PARENT_SETTID OR p CLONE_CHILD_CLEARTID),
           0]],
     Rule SCMP_ACT_ALLOW ''sigaltstack'' [],
     Rule SCMP_ACT_ALLOW ''set_robust_list'' [],
     Rule SCMP_ACT_ALLOW ''prctl'' [SCMP_A0_32 SCMP_CMP_EQ [p PR_SET_NAME]],
     Rule SCMP_ACT_ALLOW ''eventfd'' [],
     Rule SCMP_ACT_ALLOW ''eventfd2'' [],
     Rule SCMP_ACT_ALLOW ''wait4'' [],
     Rule SCMP_ACT_ALLOW ''poll'' [],
     Rule (SCMP_ACT_ERRNO (p EACCES)) ''socket'' []]"

definition main_body :: "platform \<Rightarrow> string list \<Rightarrow> stmt list" where
  "main_body p argv =
     build_body p @
     [Export_filter (argv ! 1) seccomp_export_bpf,
      Export_filter (argv ! 2) seccomp_export_pfc]"

text \<open>
  Modelled from the spec: \<open>verify\<close> (\<open>verify.h\<close> is not among the sources). Every
  assumption must hold at compile time, or compilation aborts; assumptions are declared
  once, checked once, with no side effects beyond the abort. So a \<open>verify\<close> is a
  declaration, wherever it stands among the statements: all of them are checked when
  the program is built, a false one leaves no program to run, and at run time none
  does anything.
\<close>

fun static_assertions :: "stmt list \<Rightarrow> bool list" where
  "static_assertions [] = []"
| "static_assertions (Verify b # ss) = b # static_assertions ss"
| "static_assertions (s # ss) = static_assertions ss"

fun exec_stmt :: "env \<Rightarrow> platform \<Rightarrow> stmt \<Rightarrow> world \<Rightarrow> int \<times> world + world" where
  "exec_stmt env p (Set_attribute attr v) w = set_attribute env p attr v w"
| "exec_stmt env p (Verify b) w = Inr w"
| "exec_stmt env p (Rule act sc arg_array) w = RULE env p act sc arg_array w"
| "exec_stmt env p (Export_filter file function) w = EXPORT_FILTER env p file function w"

fun exec_stmts :: "env \<Rightarrow> platform \<Rightarrow> stmt list \<Rightarrow> world \<Rightarrow> int \<times> world + world" where
  "exec_stmts env p [] w = Inr w"
| "exec_stmts env p (s # ss) w =
     (case exec_stmt env p s w of Inl x \<Rightarrow> Inl x | Inr w' \<Rightarrow> exec_stmts env p ss w')"

subsection \<open>main and the program\<close>

text \<open>
  \<open>main\<close> ends the process with an exit status in a final world. \<open>argc\<close> is the
  length of \<open>argv\<close>; the result of \<open>atexit\<close> is not looked at by the source, and the
  handler runs at exit when the registration succeeded (result 0); falling off the end
  of \<open>main\<close> exits with 0. A run of the program \<open>seccomp-filter\<close> is \<open>Not_built\<close>
  when a static assertion of \<open>main\<close> is false, and is the run of \<open>main\<close> otherwise.
\<close>

datatype run = Not_built | Exited int world

definition usage_name :: "string list \<Rightarrow> string" where
  "usage_name argv = (case argv of [] \<Rightarrow> ''(null)'' | a # as \<Rightarrow> a)"

definition main :: "env \<Rightarrow> platform \<Rightarrow> string list \<Rightarrow> int \<times> world" where
  "main env p argv =
     (if length argv \<noteq> 3
      then fail p 0 ''usage: %s out.bpf out.pfc'' [usage_name argv] world_init
      else
        let w1 = seccomp_init env SCMP_ACT_KILL_PROCESS world_init
        in if ctx w1 = None then fail p 0 ''seccomp_init'' [] w1
           else
             let (registered, w2) = lib_call env Atexit w1;
                 w3 = w2\<lparr>release_at_exit := (registered = 0)\<rparr>
             in case exec_stmts env p (main_body p argv) w3 of
                  Inl x \<Rightarrow> x
                | Inr w \<Rightarrow> exit_process 0 w)"

text \<open>
  Modelled from the spec: the build of the program, with \<open>verify\<close> of \<open>verify.h\<close>
  (not among the sources). Every assumption must hold at compile time, or compilation
  aborts: with a false assertion there is no program and no run.
\<close>

definition seccomp_filter :: "env \<Rightarrow> platform \<Rightarrow> string list \<Rightarrow> run" where
  "seccomp_filter env p argv =
     (if list_all id (static_assertions (main_body p argv))
      then (case main env p argv of (status, w) \<Rightarrow> Exited status w)
      else Not_built)"

text \<open>
  The context \<open>main\<close> has built when it reaches the exports: the effect of its
  statements, each having succeeded, on the context \<open>seccomp_init\<close> made.
\<close>

fun stmt_effect :: "stmt \<Rightarrow> filter_ctx \<Rightarrow> filter_ctx" where
  "stmt_effect (Set_attribute attr v) c = attr_set attr v c"
| "stmt_effect (Verify b) c = c"
| "stmt_effect (Rule act sc arg_array) c = rule_add act sc (length arg_array) arg_array c"
| "stmt_effect (Export_filter file function) c = c"

definition policy :: "platform \<Rightarrow> filter_ctx" where
  "policy p = fold stmt_effect (build_body p) (new_ctx SCMP_ACT_KILL_PROCESS)"

subsection \<open>Notions the properties are stated with\<close>

text \<open>
  The \<open>int\<close> argument \<open>n\<close> of an invocation is the low half of register \<open>n\<close>.
  \<open>only_bits x allowed\<close>: the 32-bit value \<open>x\<close> has no bit set outside \<open>allowed\<close>;
  \<open>has_bits x f\<close>: every bit of the flag \<open>f\<close> is set in \<open>x\<close>.
\<close>

definition arg32 :: "invocation \<Rightarrow> nat \<Rightarrow> 32 word" where
  "arg32 iv n = ucast (args iv n)"

definition only_bits :: "32 word \<Rightarrow> int \<Rightarrow> bool" where
  "only_bits x allowed = (x AND NOT (u32 allowed) = 0)"

definition has_bits :: "32 word \<Rightarrow> int \<Rightarrow> bool" where
  "has_bits x f = (x AND u32 f = u32 f)"

text \<open>The rules the \<open>RULE\<close> statements of a statement list declare, in order.\<close>

fun stmt_rules :: "stmt list \<Rightarrow> rule list" where
  "stmt_rules [] = []"
| "stmt_rules (Rule act sc arg_array # ss) =
     \<lparr>rule_action = act, rule_syscall = sc, rule_args = arg_array\<rparr> # stmt_rules ss"
| "stmt_rules (s # ss) = stmt_rules ss"

text \<open>
  An invocation built to satisfy a rule: each comparator's register gets the expected
  value (or, for not-equal, a value that differs from it in the lowest bit).
\<close>

fun satisfying_args :: "scmp_arg_cmp list \<Rightarrow> nat \<Rightarrow> 64 word" where
  "satisfying_args [] = (\<lambda>n. 0)"
| "satisfying_args (c # cs) =
     (satisfying_args cs)
       (cmp_arg c := (case cmp_op c of
                        SCMP_CMP_NE \<Rightarrow> datum_a c XOR 1
                      | SCMP_CMP_EQ \<Rightarrow> datum_a c
                      | SCMP_CMP_MASKED_EQ \<Rightarrow> datum_b c))"

definition satisfying :: "rule \<Rightarrow> invocation" where
  "satisfying r = \<lparr>nr = rule_syscall r, args = satisfying_args (rule_args r)\<rparr>"

subsection \<open>Notions the properties of a run are stated with\<close>

text \<open>
  The steps of the pipeline, as phases of the library calls: creating the context (0),
  configuring attributes (1), building the rule table (2), exporting (3) and releasing
  the context (4); and the phase of the calls each statement makes.
\<close>

fun call_phase :: "call \<Rightarrow> nat" where
  "call_phase (Seccomp_init a) = 0"
| "call_phase Atexit = 0"
| "call_phase (Seccomp_attr_set attr v) = 1"
| "call_phase (Seccomp_rule_add_array act sc n cs) = 2"
| "call_phase (Open_file file flags mode) = 3"
| "call_phase (Seccomp_export function c fd) = 3"
| "call_phase (Close_file fd) = 3"
| "call_phase Seccomp_release = 4"

definition phases :: "(call \<times> int) list \<Rightarrow> nat list" where
  "phases tr = map (\<lambda>e. call_phase (fst e)) tr"

fun stmt_phase :: "stmt \<Rightarrow> nat" where
  "stmt_phase (Set_attribute attr v) = 1"
| "stmt_phase (Verify b) = 0"
| "stmt_phase (Rule act sc cs) = 2"
| "stmt_phase (Export_filter file function) = 3"

text \<open>
  A statement list is ordered from phase \<open>k\<close> on when the phases of its statements,
  the assertions apart, never decrease and start at \<open>k\<close> or later; a world is up to
  phase \<open>k\<close> when the phases of its trace never decrease and end at \<open>k\<close> or before.
\<close>

fun stmts_ordered :: "nat \<Rightarrow> stmt list \<Rightarrow> bool" where
  "stmts_ordered k [] = True"
| "stmts_ordered k (Set_attribute attr v # ss) = (k \<le> 1 \<and> stmts_ordered 1 ss)"
| "stmts_ordered k (Verify b # ss) = stmts_ordered k ss"
| "stmts_ordered k (Rule act sc cs # ss) = (k \<le> 2 \<and> stmts_ordered 2 ss)"
| "stmts_ordered k (Export_filter file function # ss) = (k \<le> 3 \<and> stmts_ordered 3 ss)"

definition upto_phase :: "nat \<Rightarrow> world \<Rightarrow> bool" where
  "upto_phase k w = (sorted (phases (trace w)) \<and> (\<forall>n\<in>set (phases (trace w)). n \<le> k))"

text \<open>
  A call has failed when its result is the one the source takes as a failure: a null
  context, a negative status or descriptor, a non-zero result of \<open>close\<close>.
\<close>

fun failed :: "call \<times> int \<Rightarrow> bool" where
  "failed (Seccomp_init a, r) = (r = 0)"
| "failed (Atexit, r) = False"
| "failed (Seccomp_attr_set attr v, r) = (r < 0)"
| "failed (Seccomp_rule_add_array act sc n cs, r) = (r < 0)"
| "failed (Open_file file flags mode, r) = (r < 0)"
| "failed (Seccomp_export function c fd, r) = (r < 0)"
| "failed (Close_file fd, r) = (r \<noteq> 0)"
| "failed (Seccomp_release, r) = False"

text \<open>The library calls of a run; a program that was not built makes none.\<close>

fun events :: "run \<Rightarrow> (call \<times> int) list" where
  "events Not_built = []"
| "events (Exited status w) = trace w"

text \<open>
  Modelled from the spec: the pipeline from the build of the program to the end of its
  run, with \<open>verify\<close> of \<open>verify.h\<close> (not among the sources). Every assumption
  must hold at compile time, or compilation aborts: the assumptions are verified first,
  one step each in the order they are declared, and the library calls of the run, if
  the program was built, are the steps after them.
\<close>

datatype step = Verified bool | Called call int

definition pipeline :: "env \<Rightarrow> platform \<Rightarrow> string list \<Rightarrow> step list" where
  "pipeline env p argv =
     map Verified (static_assertions (main_body p argv)) @
     map (\<lambda>e. Called (fst e) (snd e)) (events (seccomp_filter env p argv))"

text \<open>The phase of a step: the verification is phase 0, before the phases of the calls.\<close>

fun step_phase :: "step \<Rightarrow> nat" where
  "step_phase (Verified b) = 0"
| "step_phase (Called c r) = Suc (call_phase c)"

text \<open>
  The calls a world has made; the call that adds a rule; and the calls by which the
  statements of a list configure and build the context when none of them fails.
\<close>

definition calls :: "world \<Rightarrow> call list" where
  "calls w = map fst (trace w)"

definition rule_call :: "rule \<Rightarrow> call" where
  "rule_call r =
     Seccomp_rule_add_array (rule_action r) (rule_syscall r) (length (rule_args r)) (rule_args r)"

fun build_calls :: "stmt list \<Rightarrow> call list" where
  "build_calls [] = []"
| "build_calls (Set_attribute attr v # ss) = Seccomp_attr_set attr v # build_calls ss"
| "build_calls (Rule act sc cs # ss) =
     Seccomp_rule_add_array act sc (length cs) cs # build_calls ss"
| "build_calls (s # ss) = build_calls ss"

text \<open>The attributes the \<open>set_attribute\<close> statements of a statement list apply.\<close>

fun stmt_attrs :: "stmt list \<Rightarrow> (scmp_filter_attr \<times> attr_value) list" where
  "stmt_attrs [] = []"
| "stmt_attrs (Set_attribute attr v # ss) = (attr, v) # stmt_attrs ss"
| "stmt_attrs (s # ss) = stmt_attrs ss"

text \<open>The flags \<open>export_filter\<close> opens its file with.\<close>

definition open_flags :: "platform \<Rightarrow> int" where
  "open_flags p = (p O_WRONLY OR p O_CREAT OR p O_TRUNC OR p O_BINARY OR p O_CLOEXEC)"

text \<open>
  The world in which the body of \<open>main\<close> starts, after \<open>seccomp_init\<close> and
  \<open>atexit\<close>, and an environment in which every call succeeds.
\<close>

definition started :: "env \<Rightarrow> world" where
  "started env =
     (let w1 = seccomp_init env SCMP_ACT_KILL_PROCESS world_init;
          (registered, w2) = lib_call env Atexit w1
      in w2\<lparr>release_at_exit := (registered = 0)\<rparr>)"

definition all_succeed :: env where
  "all_succeed = \<lparr>result = (\<lambda>k. if k = 0 then 1 else 0), errno = (\<lambda>k. 0)\<rparr>"

text \<open>
  An environment in which the last call of a run, the \<open>close\<close> of the second
  artifact, fails: the calls before it are \<open>seccomp_init\<close>, \<open>atexit\<close>, three
  \<open>seccomp_attr_set\<close>, 61 \<open>seccomp_rule_add_array\<close> and five of the six calls of the
  exports.
\<close>

definition close_fails :: env where
  "close_fails =
     \<lparr>result = (\<lambda>k. if k = 0 then 1 else if k = 71 then - 1 else 0), errno = (\<lambda>k. 5)\<rparr>"

section \<open>Properties\<close>

subsection \<open>Words\<close>

lemma low32: "ucast (ucast (v::64 word) :: 32 word) = (take_bit 32 v :: 64 word)"
  by (rule bit_word_eqI) (auto simp: bit_simps)

lemma ucast32_inj: "(ucast (a :: 32 word) = (ucast (b :: 32 word) :: 64 word)) = (a = b)"
proof
  assume "(ucast a :: 64 word) = ucast b"
  then have "(ucast (ucast a :: 64 word) :: 32 word) = ucast (ucast b :: 64 word)" by simp
  then show "a = b" by (simp add: ucast_up_ucast_id is_up)
qed simp

lemma masked32:
  "(take_bit 32 (v::64 word) AND ucast (m :: 32 word) = 0) = ((ucast v :: 32 word) AND m = 0)"
proof -
  have "take_bit 32 v AND ucast m = (ucast ((ucast v :: 32 word) AND m) :: 64 word)"
    by (rule bit_word_eqI) (auto simp: bit_simps)
  moreover have "((ucast ((ucast v :: 32 word) AND m) :: 64 word) = 0)
                 = ((ucast v :: 32 word) AND m = 0)"
    using ucast32_inj [of "(ucast v :: 32 word) AND m" 0] by simp
  ultimately show ?thesis by simp
qed

lemma eq32:
  "(take_bit 32 (v::64 word) = ucast (m :: 32 word)) = ((ucast v :: 32 word) = m)"
  using ucast32_inj [of "ucast v" m] by (simp add: low32)

lemma ucast32_take: "take_bit 32 (ucast (x :: 32 word) :: 64 word) = ucast x"
  by (rule bit_word_eqI) (auto simp: bit_simps dest: bit_imp_le_length)

lemma u32_not: "u32 (NOT z) = NOT (u32 z)"
  by (simp add: u32_def of_int_not_eq)

lemma and_flag_nonzero:
  fixes x f m :: "'a::len word"
  assumes "x AND f = f" and "f AND m \<noteq> 0"
  shows "x AND m \<noteq> 0"
proof
  assume "x AND m = 0"
  have "f AND m = (x AND f) AND m" using assms(1) by simp
  also have "\<dots> = (x AND m) AND f" by (simp add: ac_simps)
  also have "\<dots> = 0" using \<open>x AND m = 0\<close> by simp
  finally show False using assms(2) by simp
qed

lemma has_bits_not_only:
  "has_bits x f \<Longrightarrow> \<not> only_bits (u32 f) allowed \<Longrightarrow> \<not> only_bits x allowed"
  unfolding has_bits_def only_bits_def by (rule and_flag_nonzero)

subsection \<open>Comparators of the shapes the program uses\<close>

lemma cmp32_masked:
  "cmp_holds (SCMP_CMP32 n SCMP_CMP_MASKED_EQ [NOT a, 0]) iv = only_bits (arg32 iv n) a"
  "cmp_holds (SCMP_CMP32 n SCMP_CMP_MASKED_EQ [NOT a]) iv = only_bits (arg32 iv n) a"
  using masked32 [of "args iv n" "NOT (u32 a)"]
  by (simp_all add: SCMP_CMP32_def reg_def only_bits_def arg32_def u32_not u32_def [of 0]
      del: bit.de_Morgan_disj)

lemma cmp32_eq:
  "cmp_holds (SCMP_CMP32 n SCMP_CMP_EQ [z]) iv = (arg32 iv n = u32 z)"
  by (simp add: SCMP_CMP32_def reg_def arg32_def eq32)

lemma cmp64:
  "cmp_holds (SCMP_CMP64 n SCMP_CMP_EQ [z]) iv = (args iv n = word_of_int z)"
  "cmp_holds (SCMP_CMP64 n SCMP_CMP_NE [z]) iv = (args iv n \<noteq> word_of_int z)"
  by (simp_all add: SCMP_CMP64_def reg_def take_bit_word_eq_self)

lemmas cmp_shapes = cmp32_masked cmp32_eq cmp64

declare cmp_holds.simps [simp del]

subsection \<open>Rules, matching and the actions of a context\<close>

lemma cmps_hold_iff: "cmps_hold cs iv = (\<forall>c\<in>set cs. cmp_holds c iv)"
  by (induction cs) simp_all

lemma set_matching: "set (matching rs iv) = {r \<in> set rs. rule_matches r iv}"
  by (induction rs) auto

lemma matching_Nil: "(matching rs iv = []) = (\<forall>r\<in>set rs. \<not> rule_matches r iv)"
  by (induction rs) simp_all

lemma matching_filter:
  "matching rs iv =
     filter (\<lambda>r. cmps_hold (rule_args r) iv) (filter (\<lambda>r. rule_syscall r = nr iv) rs)"
  by (induction rs) (simp_all add: rule_matches_def)

lemma policy_actions_set:
  "policy_actions c iv =
     (if \<exists>r\<in>set (rules c). rule_matches r iv
      then {rule_action r |r. r \<in> set (rules c) \<and> rule_matches r iv}
      else {act_default c})"
proof (cases "matching (rules c) iv")
  case Nil
  moreover from Nil have "\<forall>r\<in>set (rules c). \<not> rule_matches r iv"
    by (simp add: matching_Nil)
  ultimately show ?thesis by (simp add: policy_actions_def)
next
  case (Cons r rs)
  then have "\<exists>r\<in>set (rules c). rule_matches r iv"
    using matching_Nil [of "rules c" iv] by auto
  moreover have "policy_actions c iv = rule_action ` set (matching (rules c) iv)"
    using Cons by (simp add: policy_actions_def)
  ultimately show ?thesis by (auto simp: set_matching)
qed

subsection \<open>The context main builds\<close>

lemma fold_stmt_effect_rules: "rules (fold stmt_effect ss c) = rules c @ stmt_rules ss"
proof (induction ss arbitrary: c)
  case Nil
  then show ?case by simp
next
  case (Cons s ss)
  then show ?case by (cases s) (simp_all add: rule_add_def attr_set_def)
qed

lemma fold_stmt_effect_default: "act_default (fold stmt_effect ss c) = act_default c"
proof (induction ss arbitrary: c)
  case Nil
  then show ?case by simp
next
  case (Cons s ss)
  then show ?case by (cases s) (simp_all add: rule_add_def attr_set_def)
qed

lemma rules_policy: "rules (policy p) = stmt_rules (build_body p)"
  by (simp add: policy_def fold_stmt_effect_rules new_ctx_def)

lemma policy_default: "act_default (policy p) = SCMP_ACT_KILL_PROCESS"
  by (simp add: policy_def fold_stmt_effect_default new_ctx_def)

lemma policy_kills:
  "matching (rules (policy p)) iv = [] \<Longrightarrow> policy_actions (policy p) iv = {SCMP_ACT_KILL_PROCESS}"
  by (simp add: policy_actions_def policy_default)

lemma actions_of_matching:
  assumes "matching (rules c) iv = ms"
  shows "{rule_action r |r. r \<in> set (rules c) \<and> rule_matches r iv} = set (map rule_action ms)"
    and "(\<exists>r\<in>set (rules c). rule_matches r iv) = (ms \<noteq> [])"
proof -
  have "set ms = {r \<in> set (rules c). rule_matches r iv}"
    using assms set_matching [of "rules c" iv] by simp
  then show "{rule_action r |r. r \<in> set (rules c) \<and> rule_matches r iv} = set (map rule_action ms)"
    by auto
  show "(\<exists>r\<in>set (rules c). rule_matches r iv) = (ms \<noteq> [])"
    using assms matching_Nil [of "rules c" iv] by auto
qed

lemma uncovered_no_match:
  "nr iv \<notin> rule_syscall ` set rs \<Longrightarrow> matching rs iv = []"
  by (induction rs) (auto simp: rule_matches_def)

lemma only_bits_iff:
  "only_bits (arg32 iv n) a = (\<forall>k<32. bit (args iv n) k \<longrightarrow> bit a k)"
  by (auto simp: only_bits_def bit_eq_iff arg32_def u32_def bit_simps)

subsection \<open>What the statements do to the context\<close>

lemma RULE_ctx:
  "RULE env p act sc cs w = Inr w' \<Longrightarrow>
     ctx w' = map_option (rule_add act sc (length cs) cs) (ctx w)"
  by (auto simp: RULE_def seccomp_rule_add_array_def lib_call_def Let_def split: if_splits)

subsection \<open>Runs of the program\<close>

lemma call_phase_le: "call_phase c \<le> 4"
  by (cases c) simp_all

lemma exit_process_sorted:
  "upto_phase k w \<Longrightarrow> exit_process st w = (st', w') \<Longrightarrow> k \<le> 4 \<Longrightarrow> sorted (phases (trace w'))"
  by (auto simp: upto_phase_def exit_process_def release_context_def seccomp_release_def
      phases_def sorted_append call_phase_le split: if_splits)

lemma fail_sorted:
  "upto_phase k w \<Longrightarrow> fail p e f a w = (st', w') \<Longrightarrow> k \<le> 4 \<Longrightarrow> sorted (phases (trace w'))"
  unfolding fail_def by (rule exit_process_sorted [where w = "w\<lparr>stderr := stderr w @ [(e, f, a)]\<rparr>"])
    (simp_all add: upto_phase_def)

lemma fail_status: "fail p e f a w = (st, w') \<Longrightarrow> st = p EXIT_FAILURE"
  by (simp add: fail_def exit_process_def)

lemma lib_call_upto:
  "upto_phase k w \<Longrightarrow> lib_call env c w = (r, w') \<Longrightarrow> k \<le> call_phase c \<Longrightarrow>
     upto_phase (call_phase c) w'"
  by (fastforce simp: upto_phase_def lib_call_def Let_def phases_def sorted_append)

lemma set_attribute_Inr:
  assumes "set_attribute env p attr v w = Inr w'"
  shows "ctx w' = map_option (attr_set attr v) (ctx w)"
    and "release_at_exit w' = release_at_exit w"
    and "\<exists>r. \<not> r < 0 \<and> trace w' = trace w @ [(Seccomp_attr_set attr v, r)]"
  using assms
  by (auto simp: set_attribute_def seccomp_attr_set_def lib_call_def Let_def split: if_splits)

lemma set_attribute_Inl:
  assumes "set_attribute env p attr v w = Inl (st, w')"
  shows "st = p EXIT_FAILURE"
    and "upto_phase k w \<Longrightarrow> k \<le> 1 \<Longrightarrow> sorted (phases (trace w'))"
proof -
  obtain r w1 where l: "lib_call env (Seccomp_attr_set attr v) w = (r, w1)"
    by (cases "lib_call env (Seccomp_attr_set attr v) w")
  with assms have f: "fail p (- r) ''seccomp_attr_set (ctx, %u, %u)'' [] w1 = (st, w')"
    by (auto simp: set_attribute_def seccomp_attr_set_def split: if_splits)
  then show "st = p EXIT_FAILURE" by (rule fail_status)
  assume "upto_phase k w" "k \<le> 1"
  with l have "upto_phase 1 w1" using lib_call_upto [of k w env "Seccomp_attr_set attr v" r w1] by simp
  then show "sorted (phases (trace w'))" using f by (rule fail_sorted) simp
qed

lemma RULE_Inr:
  assumes "RULE env p act sc cs w = Inr w'"
  shows "release_at_exit w' = release_at_exit w"
    and "\<exists>r. \<not> r < 0 \<and> trace w' = trace w @ [(Seccomp_rule_add_array act sc (length cs) cs, r)]"
  using assms
  by (auto simp: RULE_def seccomp_rule_add_array_def lib_call_def Let_def split: if_splits)

lemma RULE_Inl:
  assumes "RULE env p act sc cs w = Inl (st, w')"
  shows "st = p EXIT_FAILURE"
    and "upto_phase k w \<Longrightarrow> k \<le> 2 \<Longrightarrow> sorted (phases (trace w'))"
proof -
  obtain r w1 where l: "lib_call env (Seccomp_rule_add_array act sc (length cs) cs) w = (r, w1)"
    by (cases "lib_call env (Seccomp_rule_add_array act sc (length cs) cs) w")
  with assms have f: "fail p (- r) ''seccomp_rule_add_array (%s, %s, %d, {%s})'' [] w1 = (st, w')"
    by (auto simp: RULE_def seccomp_rule_add_array_def Let_def split: if_splits)
  then show "st = p EXIT_FAILURE" by (rule fail_status)
  assume "upto_phase k w" "k \<le> 2"
  with l have "upto_phase 2 w1"
    using lib_call_upto [of k w env "Seccomp_rule_add_array act sc (length cs) cs" r w1] by simp
  then show "sorted (phases (trace w'))" using f by (rule fail_sorted) simp
qed

lemma sorted_constant: "\<forall>x\<in>set xs. x = (j::nat) \<Longrightarrow> sorted xs"
  by (induction xs) auto

lemma upto_append:
  assumes "upto_phase k w" and "trace w' = trace w @ evs"
    and "\<forall>e\<in>set evs. call_phase (fst e) = j" and "k \<le> j"
  shows "upto_phase j w'"
proof -
  have new: "\<forall>n\<in>set (phases evs). n = j"
    using assms(3) by (auto simp: phases_def)
  then have "sorted (phases evs)" by (rule sorted_constant)
  moreover have old: "\<forall>n\<in>set (phases (trace w)). n \<le> j"
    using assms(1,4) by (auto simp: upto_phase_def)
  moreover have "sorted (phases (trace w))"
    using assms(1) by (simp add: upto_phase_def)
  moreover have "phases (trace w') = phases (trace w) @ phases evs"
    using assms(2) by (simp add: phases_def)
  ultimately show ?thesis
    using new by (auto simp: upto_phase_def sorted_append)
qed

lemma upto_mono: "upto_phase k w \<Longrightarrow> k \<le> j \<Longrightarrow> upto_phase j w"
  by (fastforce simp: upto_phase_def)

lemma export_filter_Inr:
  assumes "export_filter env p file function name w = Inr w'"
  shows "ctx w' = ctx w"
    and "release_at_exit w' = release_at_exit w"
    and "\<exists>fd s. 0 \<le> fd \<and> 0 \<le> s \<and>
           trace w' = trace w @
             [(Open_file file (open_flags p) 420, fd),
              (Seccomp_export function (ctx w) fd, s),
              (Close_file fd, 0)]"
  using assms
  by (auto simp: export_filter_def seccomp_export_def lib_call_def Let_def open_flags_def
      split: if_splits)

lemma export_filter_Inl:
  assumes "export_filter env p file function name w = Inl (st, w')"
  shows "st = p EXIT_FAILURE"
    and "upto_phase k w \<Longrightarrow> k \<le> 3 \<Longrightarrow> sorted (phases (trace w'))"
proof -
  let ?o = "Open_file file (p O_WRONLY OR p O_CREAT OR p O_TRUNC OR p O_BINARY OR p O_CLOEXEC) 420"
  obtain fd w1 where o: "lib_call env ?o w = (fd, w1)"
    by (cases "lib_call env ?o w")
  obtain s w2 where x: "lib_call env (Seccomp_export function (ctx w1) fd) w1 = (s, w2)"
    by (cases "lib_call env (Seccomp_export function (ctx w1) fd) w1")
  obtain c w3 where c: "lib_call env (Close_file fd) w2 = (c, w3)"
    by (cases "lib_call env (Close_file fd) w2")
  from assms o x c obtain e f a wf where
    f: "fail p e f a wf = (st, w')" and wf: "wf = w1 \<or> wf = w2 \<or> wf = w3"
    by (auto simp: export_filter_def seccomp_export_def Let_def split: if_splits)
  from f show "st = p EXIT_FAILURE" by (rule fail_status)
  assume u: "upto_phase k w" "k \<le> 3"
  with o have 1: "upto_phase 3 w1" using lib_call_upto [of k w env ?o fd w1] by simp
  with x have 2: "upto_phase 3 w2"
    using lib_call_upto [of 3 w1 env "Seccomp_export function (ctx w1) fd" s w2] by simp
  with c have 3: "upto_phase 3 w3"
    using lib_call_upto [of 3 w2 env "Close_file fd" c w3] by simp
  from wf 1 2 3 have "upto_phase 3 wf" by blast
  then show "sorted (phases (trace w'))" using f by (rule fail_sorted) simp
qed

lemma stmt_effect_fun:
  "stmt_effect (Set_attribute attr v) = attr_set attr v"
  "stmt_effect (Verify b) = id"
  "stmt_effect (Rule act sc cs) = rule_add act sc (length cs) cs"
  "stmt_effect (Export_filter file function) = id"
  by (rule ext, simp)+

lemma exec_stmt_Inr:
  assumes "exec_stmt env p s w = Inr w'"
  shows "ctx w' = map_option (stmt_effect s) (ctx w)"
    and "release_at_exit w' = release_at_exit w"
    and "\<exists>evs. trace w' = trace w @ evs
           \<and> (\<forall>e\<in>set evs. \<not> failed e \<and> call_phase (fst e) = stmt_phase s)"
proof -
  show "ctx w' = map_option (stmt_effect s) (ctx w)"
    using assms
    by (cases s)
      (auto simp: set_attribute_Inr RULE_ctx EXPORT_FILTER_def export_filter_Inr
        stmt_effect_fun option.map_id)
  show "release_at_exit w' = release_at_exit w"
    using assms
    by (cases s) (auto simp: set_attribute_Inr RULE_Inr EXPORT_FILTER_def export_filter_Inr)
  show "\<exists>evs. trace w' = trace w @ evs
           \<and> (\<forall>e\<in>set evs. \<not> failed e \<and> call_phase (fst e) = stmt_phase s)"
  proof (cases s)
    case (Set_attribute attr v)
    with assms set_attribute_Inr(3) [of env p attr v w w'] show ?thesis by auto
  next
    case (Verify b)
    with assms show ?thesis by auto
  next
    case (Rule act sc cs)
    with assms RULE_Inr(2) [of env p act sc cs w w'] show ?thesis by auto
  next
    case (Export_filter path fn)
    with assms export_filter_Inr(3) [of env p path fn "export_name fn" w w']
    show ?thesis by (auto simp: EXPORT_FILTER_def)
  qed
qed

lemma exec_stmt_Inl:
  assumes "exec_stmt env p s w = Inl (st, w')"
  shows "st = p EXIT_FAILURE"
    and "upto_phase k w \<Longrightarrow> k \<le> stmt_phase s \<Longrightarrow> sorted (phases (trace w'))"
proof -
  show "st = p EXIT_FAILURE"
    using assms
    by (cases s) (auto simp: EXPORT_FILTER_def dest: set_attribute_Inl(1) RULE_Inl(1) export_filter_Inl(1))
  assume "upto_phase k w" "k \<le> stmt_phase s"
  then show "sorted (phases (trace w'))"
    using assms
    by (cases s)
       (auto simp: EXPORT_FILTER_def
          dest: set_attribute_Inl(2) RULE_Inl(2) export_filter_Inl(2) upto_mono)
qed

lemma exec_stmt_upto:
  assumes "exec_stmt env p s w = Inr w'" and "upto_phase k w" and "stmts_ordered k (s # ss)"
    and "k \<le> 3"
  shows "\<exists>j\<le>3. upto_phase j w' \<and> stmts_ordered j ss"
proof (cases s)
  case (Verify b)
  with assms show ?thesis by auto
next
  case (Set_attribute attr v)
  obtain evs where "trace w' = trace w @ evs" "\<forall>e\<in>set evs. call_phase (fst e) = stmt_phase s"
    using exec_stmt_Inr(3) [OF assms(1)] by blast
  with assms(2,3) Set_attribute have "upto_phase 1 w'" "stmts_ordered 1 ss"
    using upto_append [of k w w' evs 1] by auto
  then show ?thesis by (intro exI [of _ 1]) simp
next
  case (Rule act sc cs)
  obtain evs where "trace w' = trace w @ evs" "\<forall>e\<in>set evs. call_phase (fst e) = stmt_phase s"
    using exec_stmt_Inr(3) [OF assms(1)] by blast
  with assms(2,3) Rule have "upto_phase 2 w'" "stmts_ordered 2 ss"
    using upto_append [of k w w' evs 2] by auto
  then show ?thesis by (intro exI [of _ 2]) simp
next
  case (Export_filter path fn)
  obtain evs where "trace w' = trace w @ evs" "\<forall>e\<in>set evs. call_phase (fst e) = stmt_phase s"
    using exec_stmt_Inr(3) [OF assms(1)] by blast
  with assms(2,3) Export_filter have "upto_phase 3 w'" "stmts_ordered 3 ss"
    using upto_append [of k w w' evs 3] by auto
  then show ?thesis by (intro exI [of _ 3]) simp
qed

lemma exec_stmts_Inl:
  assumes "exec_stmts env p ss w = Inl (st, w')"
  shows "st = p EXIT_FAILURE"
    and "upto_phase k w \<Longrightarrow> stmts_ordered k ss \<Longrightarrow> k \<le> 3 \<Longrightarrow> sorted (phases (trace w'))"
proof -
  show "st = p EXIT_FAILURE"
    using assms
  proof (induction ss arbitrary: w)
    case Nil
    then show ?case by simp
  next
    case (Cons s ss)
    then show ?case
      by (cases "exec_stmt env p s w") (auto dest: exec_stmt_Inl(1))
  qed
  assume "upto_phase k w" "stmts_ordered k ss" "k \<le> 3"
  with assms show "sorted (phases (trace w'))"
  proof (induction ss arbitrary: w k)
    case Nil
    then show ?case by simp
  next
    case (Cons s ss)
    show ?case
    proof (cases "exec_stmt env p s w")
      case (Inl x)
      with Cons.prems(1) have x: "exec_stmt env p s w = Inl (st, w')" by simp
      have "k \<le> stmt_phase s"
        using Cons.prems(3) x by (cases s) auto
      with x Cons.prems(2) show ?thesis by (rule exec_stmt_Inl(2))
    next
      case (Inr w1)
      with Cons.prems(1) have rest: "exec_stmts env p ss w1 = Inl (st, w')" by simp
      obtain j where "upto_phase j w1" "stmts_ordered j ss" "j \<le> 3"
        using exec_stmt_upto [OF Inr Cons.prems(2,3,4)] by blast
      with rest show ?thesis by (rule Cons.IH)
    qed
  qed
qed

lemma exec_stmts_Inr:
  assumes "exec_stmts env p ss w = Inr w'"
  shows "ctx w' = map_option (fold stmt_effect ss) (ctx w)"
    and "release_at_exit w' = release_at_exit w"
    and "\<forall>e\<in>set (trace w). \<not> failed e \<Longrightarrow> \<forall>e\<in>set (trace w'). \<not> failed e"
    and "upto_phase k w \<Longrightarrow> stmts_ordered k ss \<Longrightarrow> k \<le> 3 \<Longrightarrow> upto_phase 3 w'"
proof -
  show "ctx w' = map_option (fold stmt_effect ss) (ctx w)"
    using assms
  proof (induction ss arbitrary: w)
    case Nil
    then show ?case by (simp add: option.map_ident)
  next
    case (Cons s ss)
    then obtain w1 where 1: "exec_stmt env p s w = Inr w1" and 2: "exec_stmts env p ss w1 = Inr w'"
      by (cases "exec_stmt env p s w") auto
    from Cons.IH [OF 2] exec_stmt_Inr(1) [OF 1] show ?case
      by (simp add: option.map_comp comp_def)
  qed
  show "release_at_exit w' = release_at_exit w"
    using assms
  proof (induction ss arbitrary: w)
    case Nil
    then show ?case by simp
  next
    case (Cons s ss)
    then obtain w1 where 1: "exec_stmt env p s w = Inr w1" and 2: "exec_stmts env p ss w1 = Inr w'"
      by (cases "exec_stmt env p s w") auto
    from Cons.IH [OF 2] exec_stmt_Inr(2) [OF 1] show ?case by simp
  qed
  show "\<forall>e\<in>set (trace w'). \<not> failed e" if "\<forall>e\<in>set (trace w). \<not> failed e"
    using assms that
  proof (induction ss arbitrary: w)
    case Nil
    then show ?case by simp
  next
    case (Cons s ss)
    then obtain w1 where 1: "exec_stmt env p s w = Inr w1" and 2: "exec_stmts env p ss w1 = Inr w'"
      by (cases "exec_stmt env p s w") auto
    from exec_stmt_Inr(3) [OF 1] Cons.prems(2) have "\<forall>e\<in>set (trace w1). \<not> failed e" by auto
    with 2 show ?case by (rule Cons.IH)
  qed
  show "upto_phase 3 w'" if "upto_phase k w" "stmts_ordered k ss" "k \<le> 3"
    using assms that
  proof (induction ss arbitrary: w k)
    case Nil
    then show ?case by (auto intro: upto_mono)
  next
    case (Cons s ss)
    then obtain w1 where 1: "exec_stmt env p s w = Inr w1" and 2: "exec_stmts env p ss w1 = Inr w'"
      by (cases "exec_stmt env p s w") auto
    obtain j where "upto_phase j w1" "stmts_ordered j ss" "j \<le> 3"
      using exec_stmt_upto [OF 1 Cons.prems(2,3,4)] by blast
    with 2 show ?case by (rule Cons.IH)
  qed
qed

lemma started_props:
  assumes "result env 0 \<noteq> 0"
  shows "ctx (started env) = Some (new_ctx SCMP_ACT_KILL_PROCESS)"
    and "trace (started env) =
           [(Seccomp_init SCMP_ACT_KILL_PROCESS, result env 0), (Atexit, result env 1)]"
  using assms
  by (simp_all add: started_def seccomp_init_def lib_call_def world_init_def Let_def)

lemma started_upto: "result env 0 \<noteq> 0 \<Longrightarrow> upto_phase 0 (started env)"
  by (simp add: upto_phase_def phases_def started_props)

lemma started_not_failed: "result env 0 \<noteq> 0 \<Longrightarrow> \<forall>e\<in>set (trace (started env)). \<not> failed e"
  by (simp add: started_props)

lemma main_cases:
  assumes "main env p argv = (st, w)"
  obtains
    (usage) "length argv \<noteq> 3" "st = p EXIT_FAILURE" "trace w = []"
  | (no_ctx) "length argv = 3" "result env 0 = 0" "st = p EXIT_FAILURE"
        "trace w = [(Seccomp_init SCMP_ACT_KILL_PROCESS, 0)]"
  | (failed) "length argv = 3" "result env 0 \<noteq> 0"
        "exec_stmts env p (main_body p argv) (started env) = Inl (st, w)"
  | (finished) wf where "length argv = 3" "result env 0 \<noteq> 0"
        "exec_stmts env p (main_body p argv) (started env) = Inr wf"
        "exit_process 0 wf = (st, w)"
proof (cases "length argv = 3")
  case False
  with assms have "st = p EXIT_FAILURE" "trace w = []"
    by (auto simp: main_def fail_def exit_process_def world_init_def)
  with False show ?thesis by (rule usage)
next
  case len: True
  show ?thesis
  proof (cases "result env 0 = 0")
    case True
    with assms len have "st = p EXIT_FAILURE" "trace w = [(Seccomp_init SCMP_ACT_KILL_PROCESS, 0)]"
      by (auto simp: main_def fail_def exit_process_def world_init_def seccomp_init_def
          lib_call_def Let_def)
    with len True show ?thesis by (rule no_ctx)
  next
    case False
    then have c: "ctx (seccomp_init env SCMP_ACT_KILL_PROCESS world_init)
                    = Some (new_ctx SCMP_ACT_KILL_PROCESS)"
      by (simp add: seccomp_init_def lib_call_def Let_def world_init_def)
    have r: "main env p argv =
            (case exec_stmts env p (main_body p argv) (started env) of
               Inl x \<Rightarrow> x | Inr w \<Rightarrow> exit_process 0 w)"
      using len c by (simp add: main_def started_def Let_def split: prod.splits)
    show ?thesis
    proof (cases "exec_stmts env p (main_body p argv) (started env)")
      case (Inl x)
      with r assms have "exec_stmts env p (main_body p argv) (started env) = Inl (st, w)"
        by simp
      with len False show ?thesis by (rule failed)
    next
      case (Inr wf)
      with r assms have "exit_process 0 wf = (st, w)" by simp
      with len False Inr show ?thesis by (rule finished)
    qed
  qed
qed

lemma main_body_ordered: "stmts_ordered 0 (main_body p argv)"
  by (simp add: main_body_def build_body_def)

lemma build_phase: "\<forall>s\<in>set (build_body p). stmt_phase s \<le> 2"
  by (simp add: build_body_def)

lemma exec_stmts_append:
  "exec_stmts env p (ss @ ts) w =
     (case exec_stmts env p ss w of Inl x \<Rightarrow> Inl x | Inr w' \<Rightarrow> exec_stmts env p ts w')"
  by (induction ss arbitrary: w) (auto split: sum.splits)

lemma exec_stmts_phase_bound:
  assumes "exec_stmts env p ss w = Inr w'"
    and "\<forall>s\<in>set ss. stmt_phase s \<le> m"
    and "\<forall>e\<in>set (trace w). call_phase (fst e) \<le> m"
  shows "\<forall>e\<in>set (trace w'). call_phase (fst e) \<le> m"
  using assms
proof (induction ss arbitrary: w)
  case Nil
  then show ?case by simp
next
  case (Cons s ss)
  then obtain w1 where 1: "exec_stmt env p s w = Inr w1" and 2: "exec_stmts env p ss w1 = Inr w'"
    by (cases "exec_stmt env p s w") auto
  from exec_stmt_Inr(3) [OF 1] Cons.prems(2,3)
  have "\<forall>e\<in>set (trace w1). call_phase (fst e) \<le> m" by fastforce
  with 2 Cons.prems(2) show ?case by (intro Cons.IH) auto
qed

lemma exec_stmt_succeeds:
  assumes "\<forall>k\<ge>length (trace w). result env k = 0"
  shows "\<exists>w'. exec_stmt env p s w = Inr w' \<and> length (trace w) \<le> length (trace w')"
  using assms
  by (cases s)
     (auto simp: set_attribute_def seccomp_attr_set_def RULE_def seccomp_rule_add_array_def
        EXPORT_FILTER_def export_filter_def seccomp_export_def lib_call_def Let_def)

lemma exec_stmts_succeeds:
  assumes "\<forall>k\<ge>length (trace w). result env k = 0"
  shows "\<exists>w'. exec_stmts env p ss w = Inr w'"
  using assms
proof (induction ss arbitrary: w)
  case Nil
  then show ?case by simp
next
  case (Cons s ss)
  obtain w1 where 1: "exec_stmt env p s w = Inr w1" and "length (trace w) \<le> length (trace w1)"
    using exec_stmt_succeeds [OF Cons.prems] by blast
  with Cons.prems have "\<forall>k\<ge>length (trace w1). result env k = 0" by simp
  from Cons.IH [OF this] 1 show ?case by simp
qed

lemma linux_builds:
  "list_all id (static_assertions (main_body linux_x86_64 argv))"
  by (simp add: main_body_def build_body_def INT32_MIN_def INT32_MAX_def)

lemma run_all_succeed:
  "\<exists>w. seccomp_filter all_succeed linux_x86_64 [''seccomp-filter'', ''out.bpf'', ''out.pfc''] = Exited 0 w"
proof -
  let ?argv = "[''seccomp-filter'', ''out.bpf'', ''out.pfc'']"
  have 0: "result all_succeed 0 \<noteq> 0" by (simp add: all_succeed_def)
  have "\<forall>k\<ge>length (trace (started all_succeed)). result all_succeed k = 0"
    by (simp add: started_props [OF 0]) (simp add: all_succeed_def)
  then obtain wf where wf:
    "exec_stmts all_succeed linux_x86_64 (main_body linux_x86_64 ?argv) (started all_succeed) = Inr wf"
    using exec_stmts_succeeds by blast
  have c: "ctx (seccomp_init all_succeed SCMP_ACT_KILL_PROCESS world_init)
             = Some (new_ctx SCMP_ACT_KILL_PROCESS)"
    using 0 by (simp add: seccomp_init_def lib_call_def Let_def world_init_def)
  have "main all_succeed linux_x86_64 ?argv = exit_process 0 wf"
    using c wf by (simp add: main_def started_def Let_def split: prod.splits)
  then show ?thesis
    by (simp add: seccomp_filter_def linux_builds exit_process_def)
qed

lemma run_close_fails:
  "\<exists>w pre. main close_fails linux_x86_64 [''seccomp-filter'', ''out.bpf'', ''out.pfc'']
              = (1, w)
           \<and> trace w = pre @ [(Close_file 0, - 1), (Seccomp_release, 0)]"
  by (simp add: main_def main_body_def build_body_def close_fails_def seccomp_init_def lib_call_def
      world_init_def set_attribute_def seccomp_attr_set_def RULE_def seccomp_rule_add_array_def
      EXPORT_FILTER_def export_filter_def seccomp_export_def fail_def exit_process_def
      release_context_def seccomp_release_def Let_def
      del: bit.de_Morgan_disj)

subsection \<open>The calls of a run, in order\<close>

lemma build_calls_body:
  "build_calls (build_body p) =
     [Seccomp_attr_set SCMP_FLTATR_ACT_BADARCH (Action_value SCMP_ACT_KILL_PROCESS),
      Seccomp_attr_set SCMP_FLTATR_CTL_NNP (Flag_value 1),
      Seccomp_attr_set SCMP_FLTATR_CTL_TSYNC (Flag_value 1)] @
     map rule_call (rules (policy p))"
  by (simp add: rules_policy build_body_def rule_call_def del: bit.de_Morgan_disj)

lemma released: "exit_process st w = (st', w') \<Longrightarrow>
   st' = st \<and> (\<exists>post. calls w' = calls w @ post \<and> (\<forall>c\<in>set post. c = Seccomp_release))"
  by (auto simp: exit_process_def release_context_def seccomp_release_def calls_def
      split: if_splits)

lemma fail_calls: "fail p e f a w = (st, w') \<Longrightarrow>
   \<exists>post. calls w' = calls w @ post \<and> (\<forall>c\<in>set post. c = Seccomp_release)"
  unfolding fail_def
  using released [of "p EXIT_FAILURE" "w\<lparr>stderr := stderr w @ [(e, f, a)]\<rparr>" st w']
  by (simp add: calls_def)

lemma fail_trace: "fail p e f a w = (st, w') \<Longrightarrow> set (trace w) \<subseteq> set (trace w')"
  by (auto simp: fail_def exit_process_def release_context_def seccomp_release_def
      split: if_splits)

lemma exec_stmt_build_Inr:
  assumes "exec_stmt env p s w = Inr w'" and "stmt_phase s \<le> 2"
  shows "calls w' = calls w @ build_calls [s]"
proof (cases s)
  case (Set_attribute attr v)
  with assms set_attribute_Inr(3) [of env p attr v w w'] show ?thesis
    by (auto simp: calls_def)
next
  case (Verify b)
  with assms show ?thesis by (auto simp: calls_def)
next
  case (Rule act sc cs)
  with assms RULE_Inr(2) [of env p act sc cs w w'] show ?thesis
    by (auto simp: calls_def)
next
  case (Export_filter path fn)
  with assms show ?thesis by simp
qed

lemma exec_stmt_build_Inl:
  assumes "exec_stmt env p s w = Inl (st, w')" and "stmt_phase s \<le> 2"
  shows "\<exists>post. calls w' = calls w @ build_calls [s] @ post
           \<and> (\<forall>c\<in>set post. c = Seccomp_release)"
proof (cases s)
  case (Set_attribute attr v)
  obtain r w1 where l: "lib_call env (Seccomp_attr_set attr v) w = (r, w1)"
    by (cases "lib_call env (Seccomp_attr_set attr v) w")
  with assms Set_attribute
  have f: "fail p (- r) ''seccomp_attr_set (ctx, %u, %u)'' [] w1 = (st, w')"
    by (auto simp: set_attribute_def seccomp_attr_set_def split: if_splits)
  from l have "calls w1 = calls w @ [Seccomp_attr_set attr v]"
    by (auto simp: lib_call_def Let_def calls_def)
  with fail_calls [OF f] Set_attribute show ?thesis by auto
next
  case (Verify b)
  with assms show ?thesis by simp
next
  case (Rule act sc cs)
  obtain r w1 where l: "lib_call env (Seccomp_rule_add_array act sc (length cs) cs) w = (r, w1)"
    by (cases "lib_call env (Seccomp_rule_add_array act sc (length cs) cs) w")
  with assms Rule
  have f: "fail p (- r) ''seccomp_rule_add_array (%s, %s, %d, {%s})'' [] w1 = (st, w')"
    by (auto simp: RULE_def seccomp_rule_add_array_def Let_def split: if_splits)
  from l have "calls w1 = calls w @ [Seccomp_rule_add_array act sc (length cs) cs]"
    by (auto simp: lib_call_def Let_def calls_def)
  with fail_calls [OF f] Rule show ?thesis by auto
next
  case (Export_filter path fn)
  with assms show ?thesis by simp
qed

lemma build_calls_Cons: "build_calls (s # ss) = build_calls [s] @ build_calls ss"
  by (cases s) simp_all

lemma exec_build_Inr:
  assumes "exec_stmts env p ss w = Inr w'" and "\<forall>s\<in>set ss. stmt_phase s \<le> 2"
  shows "calls w' = calls w @ build_calls ss"
  using assms
proof (induction ss arbitrary: w)
  case Nil
  then show ?case by simp
next
  case (Cons s ss)
  then obtain w1 where 1: "exec_stmt env p s w = Inr w1" and 2: "exec_stmts env p ss w1 = Inr w'"
    by (cases "exec_stmt env p s w") auto
  from Cons.prems(2) have "stmt_phase s \<le> 2" "\<forall>s\<in>set ss. stmt_phase s \<le> 2" by simp_all
  with exec_stmt_build_Inr [OF 1] Cons.IH [OF 2] show ?case
    by (simp add: build_calls_Cons [of s ss])
qed

lemma exec_build_Inl:
  assumes "exec_stmts env p ss w = Inl (st, w')" and "\<forall>s\<in>set ss. stmt_phase s \<le> 2"
  shows "\<exists>n post. calls w' = calls w @ take n (build_calls ss) @ post
           \<and> (\<forall>c\<in>set post. c = Seccomp_release)"
  using assms
proof (induction ss arbitrary: w)
  case Nil
  then show ?case by simp
next
  case (Cons s ss)
  from Cons.prems(2) have ph: "stmt_phase s \<le> 2" "\<forall>s\<in>set ss. stmt_phase s \<le> 2" by simp_all
  show ?case
  proof (cases "exec_stmt env p s w")
    case (Inl x)
    with Cons.prems(1) have x: "exec_stmt env p s w = Inl (st, w')" by simp
    obtain post where post: "calls w' = calls w @ build_calls [s] @ post"
      "\<forall>c\<in>set post. c = Seccomp_release"
      using exec_stmt_build_Inl [OF x ph(1)] by blast
    have "take (length (build_calls [s])) (build_calls (s # ss)) = build_calls [s]"
      by (simp add: build_calls_Cons [of s ss])
    with post show ?thesis by metis
  next
    case (Inr w1)
    with Cons.prems(1) have rest: "exec_stmts env p ss w1 = Inl (st, w')" by simp
    obtain n post where n: "calls w' = calls w1 @ take n (build_calls ss) @ post"
      "\<forall>c\<in>set post. c = Seccomp_release"
      using Cons.IH [OF rest ph(2)] by blast
    have "take (length (build_calls [s]) + n) (build_calls (s # ss))
            = build_calls [s] @ take n (build_calls ss)"
      by (simp add: build_calls_Cons [of s ss])
    with n exec_stmt_build_Inr [OF Inr ph(1)]
    have "calls w' = calls w @ take (length (build_calls [s]) + n) (build_calls (s # ss)) @ post"
      by simp
    with n(2) show ?thesis by blast
  qed
qed

lemma export_filter_calls:
  assumes "export_filter env p path fn name w = Inl (st, w')"
  shows "\<exists>xs post. calls w' = calls w @ xs @ post
           \<and> (\<forall>c\<in>set xs. call_phase c = 3) \<and> (\<forall>c\<in>set post. c = Seccomp_release)"
proof -
  let ?o = "Open_file path (p O_WRONLY OR p O_CREAT OR p O_TRUNC OR p O_BINARY OR p O_CLOEXEC) 420"
  obtain fd w1 where o: "lib_call env ?o w = (fd, w1)"
    by (cases "lib_call env ?o w")
  obtain s w2 where x: "lib_call env (Seccomp_export fn (ctx w1) fd) w1 = (s, w2)"
    by (cases "lib_call env (Seccomp_export fn (ctx w1) fd) w1")
  obtain c w3 where c: "lib_call env (Close_file fd) w2 = (c, w3)"
    by (cases "lib_call env (Close_file fd) w2")
  from assms o x c obtain e f a wf where
    f: "fail p e f a wf = (st, w')" and wf: "wf = w1 \<or> wf = w2 \<or> wf = w3"
    by (auto simp: export_filter_def seccomp_export_def Let_def split: if_splits)
  from o have 1: "calls w1 = calls w @ [?o]" by (auto simp: lib_call_def Let_def calls_def)
  from x 1 have 2: "calls w2 = calls w @ [?o, Seccomp_export fn (ctx w1) fd]"
    by (auto simp: lib_call_def Let_def calls_def)
  from c 2 have 3: "calls w3 = calls w @ [?o, Seccomp_export fn (ctx w1) fd, Close_file fd]"
    by (auto simp: lib_call_def Let_def calls_def)
  from wf 1 2 3 obtain xs where "calls wf = calls w @ xs" "\<forall>c\<in>set xs. call_phase c = 3"
    by auto
  with fail_calls [OF f] show ?thesis by auto
qed

lemma lib_call_failed_kept:
  "lib_call env c w = (r, w1) \<Longrightarrow> (c, r) \<in> set (trace w1)"
  by (auto simp: lib_call_def Let_def)

lemma exec_stmt_Inl_failed:
  assumes "exec_stmt env p s w = Inl (st, w')"
  shows "\<exists>e\<in>set (trace w'). failed e"
proof (cases s)
  case (Set_attribute attr v)
  obtain r w1 where l: "lib_call env (Seccomp_attr_set attr v) w = (r, w1)"
    by (cases "lib_call env (Seccomp_attr_set attr v) w")
  with assms Set_attribute
  have f: "fail p (- r) ''seccomp_attr_set (ctx, %u, %u)'' [] w1 = (st, w')" and "r < 0"
    by (auto simp: set_attribute_def seccomp_attr_set_def split: if_splits)
  with lib_call_failed_kept [OF l] fail_trace [OF f] show ?thesis by force
next
  case (Verify b)
  with assms show ?thesis by simp
next
  case (Rule act sc cs)
  obtain r w1 where l: "lib_call env (Seccomp_rule_add_array act sc (length cs) cs) w = (r, w1)"
    by (cases "lib_call env (Seccomp_rule_add_array act sc (length cs) cs) w")
  with assms Rule
  have f: "fail p (- r) ''seccomp_rule_add_array (%s, %s, %d, {%s})'' [] w1 = (st, w')"
    and "r < 0"
    by (auto simp: RULE_def seccomp_rule_add_array_def Let_def split: if_splits)
  with lib_call_failed_kept [OF l] fail_trace [OF f] show ?thesis by force
next
  case (Export_filter path fn)
  let ?o = "Open_file path (p O_WRONLY OR p O_CREAT OR p O_TRUNC OR p O_BINARY OR p O_CLOEXEC) 420"
  obtain fd w1 where o: "lib_call env ?o w = (fd, w1)"
    by (cases "lib_call env ?o w")
  obtain s w2 where x: "lib_call env (Seccomp_export fn (ctx w1) fd) w1 = (s, w2)"
    by (cases "lib_call env (Seccomp_export fn (ctx w1) fd) w1")
  obtain c w3 where c: "lib_call env (Close_file fd) w2 = (c, w3)"
    by (cases "lib_call env (Close_file fd) w2")
  from assms Export_filter o x c obtain e f a wf ev where
    f: "fail p e f a wf = (st, w')" and "ev \<in> set (trace wf)" "failed ev"
    using lib_call_failed_kept [OF o] lib_call_failed_kept [OF x] lib_call_failed_kept [OF c]
    by (auto simp: EXPORT_FILTER_def export_filter_def seccomp_export_def Let_def
        split: if_splits)
  with fail_trace [OF f] show ?thesis by blast
qed

lemma exec_stmts_Inl_failed:
  "exec_stmts env p ss w = Inl (st, w') \<Longrightarrow> \<exists>e\<in>set (trace w'). failed e"
proof (induction ss arbitrary: w)
  case Nil
  then show ?case by simp
next
  case (Cons s ss)
  then show ?case
    by (cases "exec_stmt env p s w") (auto dest: exec_stmt_Inl_failed)
qed

lemma calls_started:
  "result env 0 \<noteq> 0 \<Longrightarrow> calls (started env) = [Seccomp_init SCMP_ACT_KILL_PROCESS, Atexit]"
  by (simp add: calls_def started_props)

lemma sorted_pipeline:
  assumes "sorted (phases tr)"
  shows "sorted (map step_phase (map Verified bs @ map (\<lambda>e. Called (fst e) (snd e)) tr))"
proof -
  have "map step_phase (map Verified bs) = replicate (length bs) 0"
    by (induction bs) simp_all
  moreover have "map step_phase (map (\<lambda>e. Called (fst e) (snd e)) tr) = map Suc (phases tr)"
    by (simp add: phases_def)
  moreover have "sorted (map Suc (phases tr))"
    using assms by (simp add: sorted_map)
  ultimately show ?thesis by (simp add: sorted_append)
qed

lemma main_sorted:
  assumes "main env p argv = (status, w)"
  shows "sorted (phases (trace w))"
  using assms
proof (cases rule: main_cases)
  case usage
  then show ?thesis by (simp add: phases_def)
next
  case no_ctx
  then show ?thesis by (simp add: phases_def)
next
  case failed
  from failed(3) started_upto [OF failed(2)] main_body_ordered show ?thesis
    by (rule exec_stmts_Inl(2)) simp
next
  case (finished wf)
  from finished(3) started_upto [OF finished(2)] main_body_ordered
  have "upto_phase 3 wf" by (rule exec_stmts_Inr(4)) simp
  then show ?thesis using finished(4) by (rule exit_process_sorted) simp
qed

lemma main_calls:
  fixes p :: platform
  defines "B \<equiv> [Seccomp_init SCMP_ACT_KILL_PROCESS, Atexit,
        Seccomp_attr_set SCMP_FLTATR_ACT_BADARCH (Action_value SCMP_ACT_KILL_PROCESS),
        Seccomp_attr_set SCMP_FLTATR_CTL_NNP (Flag_value 1),
        Seccomp_attr_set SCMP_FLTATR_CTL_TSYNC (Flag_value 1)] @
       map rule_call (rules (policy p))"
  assumes "main env p argv = (status, w)"
  shows "\<exists>n xs post. calls w = take n B @ xs @ post
           \<and> (xs \<noteq> [] \<longrightarrow> length B \<le> n)
           \<and> (\<forall>c\<in>set xs. call_phase c = 3) \<and> (\<forall>c\<in>set post. c = Seccomp_release)"
    and "length argv = 3 \<Longrightarrow> \<forall>e\<in>set (trace w). \<not> failed e \<Longrightarrow>
           status = 0 \<and>
           (\<exists>fd1 fd2 post. calls w = B @
              [Open_file (argv ! 1) (open_flags p) 420,
               Seccomp_export seccomp_export_bpf (Some (policy p)) fd1,
               Close_file fd1,
               Open_file (argv ! 2) (open_flags p) 420,
               Seccomp_export seccomp_export_pfc (Some (policy p)) fd2,
               Close_file fd2] @ post
              \<and> (\<forall>c\<in>set post. c = Seccomp_release))"
proof -
  let ?bpf = "Export_filter (argv ! 1) seccomp_export_bpf"
  let ?pfc = "Export_filter (argv ! 2) seccomp_export_pfc"
  have B: "B = [Seccomp_init SCMP_ACT_KILL_PROCESS, Atexit] @ build_calls (build_body p)"
    by (simp add: B_def build_calls_body)
  have shape: "\<exists>n xs post. calls w = take n B @ xs @ post
           \<and> (xs \<noteq> [] \<longrightarrow> length B \<le> n)
           \<and> (\<forall>c\<in>set xs. call_phase c = 3) \<and> (\<forall>c\<in>set post. c = Seccomp_release)"
    if "calls w = B @ xs @ post" "\<forall>c\<in>set xs. call_phase c = 3"
       "\<forall>c\<in>set post. c = Seccomp_release" for xs post
  proof -
    from that(1) have "calls w = take (length B) B @ xs @ post" by simp
    with that(2,3) show ?thesis by blast
  qed
  have complete: "\<exists>fd1 fd2 post. calls w = B @
              [Open_file (argv ! 1) (open_flags p) 420,
               Seccomp_export seccomp_export_bpf (Some (policy p)) fd1,
               Close_file fd1,
               Open_file (argv ! 2) (open_flags p) 420,
               Seccomp_export seccomp_export_pfc (Some (policy p)) fd2,
               Close_file fd2] @ post
              \<and> (\<forall>c\<in>set post. c = Seccomp_release)"
    if ok: "result env 0 \<noteq> 0"
      and run: "exec_stmts env p (main_body p argv) (started env) = Inr wf"
      and ex: "exit_process 0 wf = (status, w)" for wf
  proof -
    from run obtain wa wb where
      a: "exec_stmts env p (build_body p) (started env) = Inr wa" and
      b: "exec_stmt env p ?bpf wa = Inr wb" and
      c: "exec_stmt env p ?pfc wb = Inr wf"
      by (auto simp: main_body_def exec_stmts_append split: sum.splits)
    have ca: "ctx wa = Some (policy p)"
      using exec_stmts_Inr(1) [OF a] started_props(1) [OF ok] by (simp add: policy_def)
    have calls_a: "calls wa = B"
      using exec_build_Inr [OF a build_phase] calls_started [OF ok] by (simp add: B)
    from b have b': "export_filter env p (argv ! 1) seccomp_export_bpf
                       (export_name seccomp_export_bpf) wa = Inr wb"
      by (simp add: EXPORT_FILTER_def)
    from c have c': "export_filter env p (argv ! 2) seccomp_export_pfc
                       (export_name seccomp_export_pfc) wb = Inr wf"
      by (simp add: EXPORT_FILTER_def)
    obtain fd1 where 1: "calls wb = calls wa @
         [Open_file (argv ! 1) (open_flags p) 420,
          Seccomp_export seccomp_export_bpf (ctx wa) fd1, Close_file fd1]"
      using export_filter_Inr(3) [OF b'] by (auto simp: calls_def)
    obtain fd2 where 2: "calls wf = calls wb @
         [Open_file (argv ! 2) (open_flags p) 420,
          Seccomp_export seccomp_export_pfc (ctx wb) fd2, Close_file fd2]"
      using export_filter_Inr(3) [OF c'] by (auto simp: calls_def)
    have cb: "ctx wb = Some (policy p)"
      using export_filter_Inr(1) [OF b'] ca by simp
    obtain post where post: "calls w = calls wf @ post" "\<forall>c\<in>set post. c = Seccomp_release"
      using released [OF ex] by blast
    have "calls w = B @
              [Open_file (argv ! 1) (open_flags p) 420,
               Seccomp_export seccomp_export_bpf (Some (policy p)) fd1,
               Close_file fd1,
               Open_file (argv ! 2) (open_flags p) 420,
               Seccomp_export seccomp_export_pfc (Some (policy p)) fd2,
               Close_file fd2] @ post"
      using 1 2 ca cb calls_a post(1) by simp
    with post(2) show ?thesis by blast
  qed
  show "\<exists>n xs post. calls w = take n B @ xs @ post
           \<and> (xs \<noteq> [] \<longrightarrow> length B \<le> n)
           \<and> (\<forall>c\<in>set xs. call_phase c = 3) \<and> (\<forall>c\<in>set post. c = Seccomp_release)"
    using assms(2)
  proof (cases rule: main_cases)
    case usage
    then have "calls w = take 0 B @ [] @ []" by (simp add: calls_def)
    then show ?thesis by (metis empty_iff list.set(1))
  next
    case no_ctx
    then have "calls w = take 1 B @ [] @ []" by (simp add: calls_def B_def)
    then show ?thesis by (metis empty_iff list.set(1))
  next
    case failed
    show ?thesis
    proof (cases "exec_stmts env p (build_body p) (started env)")
      case (Inl x)
      with failed(3) have x: "exec_stmts env p (build_body p) (started env) = Inl (status, w)"
        by (simp add: main_body_def exec_stmts_append)
      obtain n post where n: "calls w = calls (started env) @ take n (build_calls (build_body p)) @ post"
        "\<forall>c\<in>set post. c = Seccomp_release"
        using exec_build_Inl [OF x build_phase] by blast
      then have "calls w = take (2 + n) B @ [] @ post"
        by (simp add: B calls_started [OF failed(2)])
      with n(2) show ?thesis by (metis empty_iff list.set(1))
    next
      case (Inr wa)
      have calls_a: "calls wa = B"
        using exec_build_Inr [OF Inr build_phase] calls_started [OF failed(2)] by (simp add: B)
      show ?thesis
      proof (cases "exec_stmt env p ?bpf wa")
        case (Inl x)
        with failed(3) Inr have "export_filter env p (argv ! 1) seccomp_export_bpf
                       (export_name seccomp_export_bpf) wa = Inl (status, w)"
          by (simp add: main_body_def exec_stmts_append EXPORT_FILTER_def)
        from export_filter_calls [OF this] obtain xs post where
          "calls w = calls wa @ xs @ post" "\<forall>c\<in>set xs. call_phase c = 3"
          "\<forall>c\<in>set post. c = Seccomp_release"
          by blast
        with calls_a show ?thesis by (intro shape [of xs post]) simp_all
      next
        case b: (Inr wb)
        with failed(3) Inr have c: "export_filter env p (argv ! 2) seccomp_export_pfc
                       (export_name seccomp_export_pfc) wb = Inl (status, w)"
          by (auto simp: main_body_def exec_stmts_append EXPORT_FILTER_def split: sum.splits)
        from b have "export_filter env p (argv ! 1) seccomp_export_bpf
                       (export_name seccomp_export_bpf) wa = Inr wb"
          by (simp add: EXPORT_FILTER_def)
        from export_filter_Inr(3) [OF this] obtain ys where
          ys: "calls wb = calls wa @ ys" "\<forall>c\<in>set ys. call_phase c = 3"
          by (auto simp: calls_def)
        obtain xs post where xs: "calls w = calls wb @ xs @ post"
          "\<forall>c\<in>set xs. call_phase c = 3" "\<forall>c\<in>set post. c = Seccomp_release"
          using export_filter_calls [OF c] by blast
        have "calls w = B @ (ys @ xs) @ post" using xs(1) ys(1) calls_a by simp
        moreover have "\<forall>c\<in>set (ys @ xs). call_phase c = 3" using xs(2) ys(2) by auto
        ultimately show ?thesis using xs(3) by (rule shape)
      qed
    qed
  next
    case (finished wf)
    from complete [OF finished(2,3,4)] obtain fd1 fd2 post where
      "calls w = B @
              [Open_file (argv ! 1) (open_flags p) 420,
               Seccomp_export seccomp_export_bpf (Some (policy p)) fd1,
               Close_file fd1,
               Open_file (argv ! 2) (open_flags p) 420,
               Seccomp_export seccomp_export_pfc (Some (policy p)) fd2,
               Close_file fd2] @ post" "\<forall>c\<in>set post. c = Seccomp_release"
      by blast
    then show ?thesis by (intro shape) auto
  qed
  show "status = 0 \<and>
           (\<exists>fd1 fd2 post. calls w = B @
              [Open_file (argv ! 1) (open_flags p) 420,
               Seccomp_export seccomp_export_bpf (Some (policy p)) fd1,
               Close_file fd1,
               Open_file (argv ! 2) (open_flags p) 420,
               Seccomp_export seccomp_export_pfc (Some (policy p)) fd2,
               Close_file fd2] @ post
              \<and> (\<forall>c\<in>set post. c = Seccomp_release))"
    if "length argv = 3" "\<forall>e\<in>set (trace w). \<not> failed e"
    using assms(2)
  proof (cases rule: main_cases)
    case usage
    with that show ?thesis by simp
  next
    case no_ctx
    with that show ?thesis by simp
  next
    case failed
    from exec_stmts_Inl_failed [OF failed(3)] that(2) show ?thesis by blast
  next
    case (finished wf)
    from finished(4) have "status = 0" by (simp add: exit_process_def)
    with complete [OF finished(2,3,4)] show ?thesis by simp
  qed
qed

lemma run_all_succeed_clean:
  "\<exists>w. seccomp_filter all_succeed linux_x86_64 [''seccomp-filter'', ''out.bpf'', ''out.pfc'']
         = Exited 0 w
       \<and> (\<forall>e\<in>set (trace w). \<not> failed e)"
proof -
  let ?argv = "[''seccomp-filter'', ''out.bpf'', ''out.pfc'']"
  have 0: "result all_succeed 0 \<noteq> 0" by (simp add: all_succeed_def)
  have "\<forall>k\<ge>length (trace (started all_succeed)). result all_succeed k = 0"
    by (simp add: started_props [OF 0]) (simp add: all_succeed_def)
  then obtain wf where wf:
    "exec_stmts all_succeed linux_x86_64 (main_body linux_x86_64 ?argv) (started all_succeed) = Inr wf"
    using exec_stmts_succeeds by blast
  have clean: "\<forall>e\<in>set (trace wf). \<not> failed e"
    using wf started_not_failed [OF 0] by (rule exec_stmts_Inr(3))
  have c: "ctx (seccomp_init all_succeed SCMP_ACT_KILL_PROCESS world_init)
             = Some (new_ctx SCMP_ACT_KILL_PROCESS)"
    using 0 by (simp add: seccomp_init_def lib_call_def Let_def world_init_def)
  have m: "main all_succeed linux_x86_64 ?argv = exit_process 0 wf"
    using c wf by (simp add: main_def started_def Let_def split: prod.splits)
  obtain w where w: "exit_process 0 wf = (0, w)"
    by (simp add: exit_process_def)
  then have "trace w = trace wf \<or> trace w = trace wf @ [(Seccomp_release, 0)]"
    by (auto simp: exit_process_def release_context_def seccomp_release_def split: if_splits)
  with clean have "\<forall>e\<in>set (trace w). \<not> failed e" by auto
  moreover from m w have "seccomp_filter all_succeed linux_x86_64 ?argv = Exited 0 w"
    by (simp add: seccomp_filter_def linux_builds)
  ultimately show ?thesis by blast
qed

lemma main_steps:
  assumes "main env p argv = (status, w)"
  shows "\<exists>n xs post.
              map fst (trace w) =
                take n
                  ([Seccomp_init SCMP_ACT_KILL_PROCESS, Atexit,
                    Seccomp_attr_set SCMP_FLTATR_ACT_BADARCH (Action_value SCMP_ACT_KILL_PROCESS),
                    Seccomp_attr_set SCMP_FLTATR_CTL_NNP (Flag_value 1),
                    Seccomp_attr_set SCMP_FLTATR_CTL_TSYNC (Flag_value 1)] @
                   map rule_call (rules (policy p))) @ xs @ post
              \<and> (xs \<noteq> [] \<longrightarrow> 5 + length (rules (policy p)) \<le> n)
              \<and> (\<forall>c\<in>set xs. call_phase c = 3)
              \<and> (\<forall>c\<in>set post. c = Seccomp_release)"
    and "length argv = 3 \<and> (\<forall>e\<in>set (trace w). \<not> failed e) \<longrightarrow>
              status = 0
              \<and> (\<exists>fd1 fd2 post.
                    map fst (trace w) =
                      [Seccomp_init SCMP_ACT_KILL_PROCESS, Atexit,
                       Seccomp_attr_set SCMP_FLTATR_ACT_BADARCH
                         (Action_value SCMP_ACT_KILL_PROCESS),
                       Seccomp_attr_set SCMP_FLTATR_CTL_NNP (Flag_value 1),
                       Seccomp_attr_set SCMP_FLTATR_CTL_TSYNC (Flag_value 1)] @
                      map rule_call (rules (policy p)) @
                      [Open_file (argv ! 1) (open_flags p) 420,
                       Seccomp_export seccomp_export_bpf (Some (policy p)) fd1,
                       Close_file fd1,
                       Open_file (argv ! 2) (open_flags p) 420,
                       Seccomp_export seccomp_export_pfc (Some (policy p)) fd2,
                       Close_file fd2] @ post
                    \<and> (\<forall>c\<in>set post. c = Seccomp_release))"
proof -
  let ?B = "[Seccomp_init SCMP_ACT_KILL_PROCESS, Atexit,
             Seccomp_attr_set SCMP_FLTATR_ACT_BADARCH (Action_value SCMP_ACT_KILL_PROCESS),
             Seccomp_attr_set SCMP_FLTATR_CTL_NNP (Flag_value 1),
             Seccomp_attr_set SCMP_FLTATR_CTL_TSYNC (Flag_value 1)] @
            map rule_call (rules (policy p))"
  have len: "length ?B = 5 + length (rules (policy p))" by simp
  from main_calls(1) [OF assms] obtain n xs post where
    "calls w = take n ?B @ xs @ post" "xs \<noteq> [] \<longrightarrow> length ?B \<le> n"
    "\<forall>c\<in>set xs. call_phase c = 3" "\<forall>c\<in>set post. c = Seccomp_release"
    by blast
  then show "\<exists>n xs post.
              map fst (trace w) = take n ?B @ xs @ post
              \<and> (xs \<noteq> [] \<longrightarrow> 5 + length (rules (policy p)) \<le> n)
              \<and> (\<forall>c\<in>set xs. call_phase c = 3)
              \<and> (\<forall>c\<in>set post. c = Seccomp_release)"
    unfolding calls_def len by blast
  show "length argv = 3 \<and> (\<forall>e\<in>set (trace w). \<not> failed e) \<longrightarrow>
              status = 0
              \<and> (\<exists>fd1 fd2 post.
                    map fst (trace w) =
                      [Seccomp_init SCMP_ACT_KILL_PROCESS, Atexit,
                       Seccomp_attr_set SCMP_FLTATR_ACT_BADARCH
                         (Action_value SCMP_ACT_KILL_PROCESS),
                       Seccomp_attr_set SCMP_FLTATR_CTL_NNP (Flag_value 1),
                       Seccomp_attr_set SCMP_FLTATR_CTL_TSYNC (Flag_value 1)] @
                      map rule_call (rules (policy p)) @
                      [Open_file (argv ! 1) (open_flags p) 420,
                       Seccomp_export seccomp_export_bpf (Some (policy p)) fd1,
                       Close_file fd1,
                       Open_file (argv ! 2) (open_flags p) 420,
                       Seccomp_export seccomp_export_pfc (Some (policy p)) fd2,
                       Close_file fd2] @ post
                    \<and> (\<forall>c\<in>set post. c = Seccomp_release))"
  proof
    assume h: "length argv = 3 \<and> (\<forall>e\<in>set (trace w). \<not> failed e)"
    then have "length argv = 3" "\<forall>e\<in>set (trace w). \<not> failed e" by simp_all
    from main_calls(2) [OF assms this] show "status = 0
              \<and> (\<exists>fd1 fd2 post.
                    map fst (trace w) =
                      [Seccomp_init SCMP_ACT_KILL_PROCESS, Atexit,
                       Seccomp_attr_set SCMP_FLTATR_ACT_BADARCH
                         (Action_value SCMP_ACT_KILL_PROCESS),
                       Seccomp_attr_set SCMP_FLTATR_CTL_NNP (Flag_value 1),
                       Seccomp_attr_set SCMP_FLTATR_CTL_TSYNC (Flag_value 1)] @
                      map rule_call (rules (policy p)) @
                      [Open_file (argv ! 1) (open_flags p) 420,
                       Seccomp_export seccomp_export_bpf (Some (policy p)) fd1,
                       Close_file fd1,
                       Open_file (argv ! 2) (open_flags p) 420,
                       Seccomp_export seccomp_export_pfc (Some (policy p)) fd2,
                       Close_file fd2] @ post
                    \<and> (\<forall>c\<in>set post. c = Seccomp_release))"
      unfolding calls_def by (simp only: append_assoc)
  qed
qed

section \<open>The claims\<close>

text \<open>
  C1. The two \<open>mmap\<close> rules allow only the protection bits
  \<open>PROT_NONE | PROT_READ | PROT_WRITE\<close>, respectively
  \<open>PROT_NONE | PROT_READ | PROT_EXEC\<close>. Where \<open>PROT_EXEC\<close> is not among the bits of
  the first set and \<open>PROT_WRITE\<close> not among those of the second, an \<open>mmap\<close> whose
  protection argument has both \<open>PROT_WRITE\<close> and \<open>PROT_EXEC\<close> set matches no rule of
  the policy, and the policy decides the default action, kill-process.
\<close>

theorem mmap_write_exec_killed:
  assumes "nr iv = ''mmap''"
    and "has_bits (arg32 iv 2) (p PROT_WRITE)"
    and "has_bits (arg32 iv 2) (p PROT_EXEC)"
    and "\<not> only_bits (u32 (p PROT_EXEC)) (p PROT_NONE OR p PROT_READ OR p PROT_WRITE)"
    and "\<not> only_bits (u32 (p PROT_WRITE)) (p PROT_NONE OR p PROT_READ OR p PROT_EXEC)"
  shows "(\<forall>r\<in>set (rules (policy p)). \<not> rule_matches r iv)
         \<and> policy_actions (policy p) iv = {SCMP_ACT_KILL_PROCESS}"
proof -
  have rw: "\<not> only_bits (arg32 iv 2) (p PROT_NONE OR p PROT_READ OR p PROT_WRITE)"
    using assms(3,4) by (rule has_bits_not_only)
  have rx: "\<not> only_bits (arg32 iv 2) (p PROT_NONE OR p PROT_READ OR p PROT_EXEC)"
    using assms(2,5) by (rule has_bits_not_only)
  have none: "matching (rules (policy p)) iv = []"
    using assms(1) rw rx
    by (simp add: matching_filter rules_policy main_body_def build_body_def cmp_shapes
        del: bit.de_Morgan_disj)
  then show ?thesis by (simp add: matching_Nil policy_kills)
qed

theorem mmap_write_exec_killed_witness:
  "nr \<lparr>nr = ''mmap'', args = (\<lambda>n. 0)(2 := 7)\<rparr> = ''mmap''
   \<and> has_bits (arg32 \<lparr>nr = ''mmap'', args = (\<lambda>n. 0)(2 := 7)\<rparr> 2) (linux_x86_64 PROT_WRITE)
   \<and> has_bits (arg32 \<lparr>nr = ''mmap'', args = (\<lambda>n. 0)(2 := 7)\<rparr> 2) (linux_x86_64 PROT_EXEC)
   \<and> \<not> only_bits (u32 (linux_x86_64 PROT_EXEC))
         (linux_x86_64 PROT_NONE OR linux_x86_64 PROT_READ OR linux_x86_64 PROT_WRITE)
   \<and> \<not> only_bits (u32 (linux_x86_64 PROT_WRITE))
         (linux_x86_64 PROT_NONE OR linux_x86_64 PROT_READ OR linux_x86_64 PROT_EXEC)
   \<and> matching (rules (policy linux_x86_64)) \<lparr>nr = ''mmap'', args = (\<lambda>n. 0)(2 := 7)\<rparr> = []
   \<and> policy_actions (policy linux_x86_64) \<lparr>nr = ''mmap'', args = (\<lambda>n. 0)(2 := 7)\<rparr>
       = {SCMP_ACT_KILL_PROCESS}"
proof -
  let ?iv = "\<lparr>nr = ''mmap'', args = (\<lambda>n. 0)(2 := 7)\<rparr>"
  have 1: "nr ?iv = ''mmap''" by simp
  have 2: "has_bits (arg32 ?iv 2) (linux_x86_64 PROT_WRITE)"
    by (simp add: has_bits_def arg32_def u32_def)
  have 3: "has_bits (arg32 ?iv 2) (linux_x86_64 PROT_EXEC)"
    by (simp add: has_bits_def arg32_def u32_def)
  have 4: "\<not> only_bits (u32 (linux_x86_64 PROT_EXEC))
         (linux_x86_64 PROT_NONE OR linux_x86_64 PROT_READ OR linux_x86_64 PROT_WRITE)"
    by (simp add: only_bits_def u32_def)
  have 5: "\<not> only_bits (u32 (linux_x86_64 PROT_WRITE))
         (linux_x86_64 PROT_NONE OR linux_x86_64 PROT_READ OR linux_x86_64 PROT_EXEC)"
    by (simp add: only_bits_def u32_def)
  show ?thesis
    using 1 2 3 4 5 mmap_write_exec_killed [OF 1 2 3 4 5] by (simp add: matching_Nil)
qed

text \<open>
  C2. Default deny: for an invocation that no rule of the table matches, the actions of
  the policy are the configured default action alone, and that default action is
  kill-process.
\<close>

theorem default_deny:
  assumes "\<forall>r\<in>set (rules (policy p)). \<not> rule_matches r iv"
  shows "policy_actions (policy p) iv = {act_default (policy p)}
         \<and> act_default (policy p) = SCMP_ACT_KILL_PROCESS"
  using assms by (simp add: policy_actions_set policy_default)

theorem default_deny_witness:
  "matching (rules (policy linux_x86_64)) \<lparr>nr = ''execve'', args = (\<lambda>n. 0)\<rparr> = []
   \<and> policy_actions (policy linux_x86_64) \<lparr>nr = ''execve'', args = (\<lambda>n. 0)\<rparr>
       = {SCMP_ACT_KILL_PROCESS}"
proof -
  let ?iv = "\<lparr>nr = ''execve'', args = (\<lambda>n. 0)\<rparr>"
  have none: "matching (rules (policy linux_x86_64)) ?iv = []"
    by (simp add: matching_filter rules_policy main_body_def build_body_def del: bit.de_Morgan_disj)
  then have "\<forall>r\<in>set (rules (policy linux_x86_64)). \<not> rule_matches r ?iv"
    by (simp add: matching_Nil)
  from default_deny [OF this] none show ?thesis by simp
qed

text \<open>
  C3. A rule matches an invocation iff the syscall identifier is the rule's and every
  comparator of the rule holds; a rule without comparators matches every invocation of
  its syscall; the actions of a context are those of the rules that match, as
  alternatives, and the default action when none does. The \<open>RULE\<close> macro adds the
  rule with exactly the comparators it is given.
\<close>

theorem rule_semantics:
  "(rule_matches r iv \<longleftrightarrow> rule_syscall r = nr iv \<and> (\<forall>c\<in>set (rule_args r). cmp_holds c iv))
   \<and> (rule_args r = [] \<longrightarrow> (rule_matches r iv \<longleftrightarrow> rule_syscall r = nr iv))
   \<and> policy_actions c iv =
       (if \<exists>r\<in>set (rules c). rule_matches r iv
        then {rule_action r |r. r \<in> set (rules c) \<and> rule_matches r iv}
        else {act_default c})
   \<and> (RULE env p act sc cs w = Inr w' \<longrightarrow>
        ctx w' = map_option
                   (\<lambda>c. c\<lparr>rules := rules c @
                              [\<lparr>rule_action = act, rule_syscall = sc, rule_args = cs\<rparr>]\<rparr>)
                   (ctx w))"
proof -
  have 1: "rule_matches r iv \<longleftrightarrow>
           rule_syscall r = nr iv \<and> (\<forall>c\<in>set (rule_args r). cmp_holds c iv)"
    by (simp add: rule_matches_def cmps_hold_iff)
  have 2: "rule_args r = [] \<longrightarrow> (rule_matches r iv \<longleftrightarrow> rule_syscall r = nr iv)"
    by (simp add: rule_matches_def)
  have 4: "RULE env p act sc cs w = Inr w' \<longrightarrow>
        ctx w' = map_option
                   (\<lambda>c. c\<lparr>rules := rules c @
                              [\<lparr>rule_action = act, rule_syscall = sc, rule_args = cs\<rparr>]\<rparr>)
                   (ctx w)"
    using RULE_ctx [of env p act sc cs w w'] by (simp add: rule_add_def [abs_def])
  from 1 2 4 policy_actions_set [of c iv] show ?thesis by blast
qed

theorem rule_semantics_witness:
  "rule_matches
     \<lparr>rule_action = SCMP_ACT_ERRNO 1, rule_syscall = ''prlimit64'',
      rule_args = [SCMP_A0_32 SCMP_CMP_EQ [0], SCMP_A2_64 SCMP_CMP_NE [0]]\<rparr>
     \<lparr>nr = ''prlimit64'', args = (\<lambda>n. 0)(2 := 4096)\<rparr>
   \<and> rule_matches \<lparr>rule_action = SCMP_ACT_ALLOW, rule_syscall = ''read'', rule_args = []\<rparr>
       \<lparr>nr = ''read'', args = (\<lambda>n. 5)\<rparr>
   \<and> policy_actions (policy linux_x86_64) \<lparr>nr = ''prlimit64'', args = (\<lambda>n. 0)(2 := 4096)\<rparr>
       = {SCMP_ACT_ERRNO 1}
   \<and> policy_actions (policy linux_x86_64) \<lparr>nr = ''prlimit64'', args = (\<lambda>n. 0)\<rparr>
       = {SCMP_ACT_ALLOW}
   \<and> (\<exists>w'. RULE \<lparr>result = (\<lambda>k. 0), errno = (\<lambda>k. 0)\<rparr> linux_x86_64 SCMP_ACT_ALLOW ''read'' []
              (world_init\<lparr>ctx := Some (new_ctx SCMP_ACT_KILL_PROCESS)\<rparr>) = Inr w'
           \<and> ctx w' = Some \<lparr>act_default = SCMP_ACT_KILL_PROCESS, attrs = Map.empty,
                  rules = [\<lparr>rule_action = SCMP_ACT_ALLOW, rule_syscall = ''read'',
                            rule_args = []\<rparr>]\<rparr>)"
proof -
  let ?e = "\<lparr>rule_action = SCMP_ACT_ERRNO 1, rule_syscall = ''prlimit64'',
      rule_args = [SCMP_A0_32 SCMP_CMP_EQ [0], SCMP_A2_64 SCMP_CMP_NE [0]]\<rparr>"
  let ?a = "\<lparr>rule_action = SCMP_ACT_ALLOW, rule_syscall = ''prlimit64'',
      rule_args = [SCMP_A0_32 SCMP_CMP_EQ [0], SCMP_A2_64 SCMP_CMP_EQ [0]]\<rparr>"
  let ?set = "\<lparr>nr = ''prlimit64'', args = (\<lambda>n. 0)(2 := 4096)\<rparr>"
  let ?get = "\<lparr>nr = ''prlimit64'', args = (\<lambda>n. 0)\<rparr>"
  let ?rd = "\<lparr>rule_action = SCMP_ACT_ALLOW, rule_syscall = ''read'', rule_args = []\<rparr>"
  let ?env = "\<lparr>result = (\<lambda>k. 0), errno = (\<lambda>k. 0)\<rparr>"
  let ?w = "world_init\<lparr>ctx := Some (new_ctx SCMP_ACT_KILL_PROCESS)\<rparr>"
  note matches = rule_semantics [THEN conjunct1]
  note unconditional = rule_semantics [THEN conjunct2, THEN conjunct1]
  note alternatives = rule_semantics [THEN conjunct2, THEN conjunct2, THEN conjunct1]
  note added = rule_semantics [THEN conjunct2, THEN conjunct2, THEN conjunct2, rule_format]
  have 1: "rule_matches ?e ?set"
    by (simp add: matches cmp_shapes arg32_def u32_def)
  have 2: "rule_matches ?rd \<lparr>nr = ''read'', args = (\<lambda>n. 5)\<rparr>"
    using unconditional [of ?rd "\<lparr>nr = ''read'', args = (\<lambda>n. 5)\<rparr>"] by simp
  have ms: "matching (rules (policy linux_x86_64)) ?set = [?e]"
    by (simp add: matching_filter rules_policy main_body_def build_body_def cmp_shapes arg32_def u32_def
        del: bit.de_Morgan_disj)
  have mg: "matching (rules (policy linux_x86_64)) ?get = [?a]"
    by (simp add: matching_filter rules_policy main_body_def build_body_def cmp_shapes arg32_def u32_def
        del: bit.de_Morgan_disj)
  have 3: "policy_actions (policy linux_x86_64) ?set = {SCMP_ACT_ERRNO 1}"
    by (simp only: alternatives actions_of_matching [OF ms]) simp
  have 4: "policy_actions (policy linux_x86_64) ?get = {SCMP_ACT_ALLOW}"
    by (simp only: alternatives actions_of_matching [OF mg]) simp
  have r: "RULE ?env linux_x86_64 SCMP_ACT_ALLOW ''read'' [] ?w =
           Inr (?w\<lparr>trace := [(Seccomp_rule_add_array SCMP_ACT_ALLOW ''read'' 0 [], 0)],
                  ctx := Some (rule_add SCMP_ACT_ALLOW ''read'' 0 []
                                 (new_ctx SCMP_ACT_KILL_PROCESS))\<rparr>)"
    by (simp add: RULE_def seccomp_rule_add_array_def lib_call_def world_init_def)
  have 5: "ctx (?w\<lparr>trace := [(Seccomp_rule_add_array SCMP_ACT_ALLOW ''read'' 0 [], 0)],
                  ctx := Some (rule_add SCMP_ACT_ALLOW ''read'' 0 []
                                 (new_ctx SCMP_ACT_KILL_PROCESS))\<rparr>)
           = Some \<lparr>act_default = SCMP_ACT_KILL_PROCESS, attrs = Map.empty, rules = [?rd]\<rparr>"
    by (simp only: added [OF r]) (simp add: world_init_def new_ctx_def)
  from 1 2 3 4 5 r show ?thesis by blast
qed

text \<open>
  C4. The platform assumptions are the nine static assertions of \<open>main\<close>. They are
  verified when the program is built, wherever they stand among its statements: if one
  of them is false the program is not built, and the pipeline consists of the
  verification alone, with no library call, so no rule is added and no file is opened.
  The steps of the pipeline occur in the order of the phases: verification, creation of
  the context, attributes, rules, exports, release. Every run makes the calls of a
  beginning of the sequence \<open>seccomp_init\<close>, \<open>atexit\<close>, the three
  \<open>seccomp_attr_set\<close>, one \<open>seccomp_rule_add_array\<close> for each rule of the policy
  in order, then, only after all of these, calls of the exports, then at most the
  release. A run with two file arguments in which no call fails exits with 0 and has
  made exactly that sequence, followed by the open, export and close of the binary
  artifact and the open, export and close of the text artifact, both exports of the
  policy.
\<close>

theorem verification_then_steps:
  "((\<exists>b\<in>set (static_assertions (main_body p argv)). \<not> b) \<longrightarrow>
      seccomp_filter env p argv = Not_built
      \<and> pipeline env p argv = map Verified (static_assertions (main_body p argv)))
   \<and> static_assertions (main_body p argv) =
       [p CHAR_BIT = 8,
        p SIZEOF_INT = 4 \<and> p INT_MIN = INT32_MIN \<and> p INT_MAX = INT32_MAX,
        p SIZEOF_VOID_PTR = 8,
        p NULL_AS_UINTPTR = 0,
        p MAP_PRIVATE \<noteq> 0,
        p MAP_SHARED \<noteq> 0,
        p O_WRONLY \<noteq> 0,
        p O_RDWR \<noteq> 0,
        p O_CREAT \<noteq> 0]
   \<and> sorted (map step_phase (pipeline env p argv))
   \<and> (seccomp_filter env p argv = Exited status w \<longrightarrow>
        (\<forall>b\<in>set (static_assertions (main_body p argv)). b)
        \<and> pipeline env p argv =
            map Verified (static_assertions (main_body p argv)) @
            map (\<lambda>e. Called (fst e) (snd e)) (trace w)
        \<and> (\<exists>n xs post.
              map fst (trace w) =
                take n
                  ([Seccomp_init SCMP_ACT_KILL_PROCESS, Atexit,
                    Seccomp_attr_set SCMP_FLTATR_ACT_BADARCH (Action_value SCMP_ACT_KILL_PROCESS),
                    Seccomp_attr_set SCMP_FLTATR_CTL_NNP (Flag_value 1),
                    Seccomp_attr_set SCMP_FLTATR_CTL_TSYNC (Flag_value 1)] @
                   map rule_call (rules (policy p))) @ xs @ post
              \<and> (xs \<noteq> [] \<longrightarrow> 5 + length (rules (policy p)) \<le> n)
              \<and> (\<forall>c\<in>set xs. call_phase c = 3)
              \<and> (\<forall>c\<in>set post. c = Seccomp_release))
        \<and> (length argv = 3 \<and> (\<forall>e\<in>set (trace w). \<not> failed e) \<longrightarrow>
              status = 0
              \<and> (\<exists>fd1 fd2 post.
                    map fst (trace w) =
                      [Seccomp_init SCMP_ACT_KILL_PROCESS, Atexit,
                       Seccomp_attr_set SCMP_FLTATR_ACT_BADARCH
                         (Action_value SCMP_ACT_KILL_PROCESS),
                       Seccomp_attr_set SCMP_FLTATR_CTL_NNP (Flag_value 1),
                       Seccomp_attr_set SCMP_FLTATR_CTL_TSYNC (Flag_value 1)] @
                      map rule_call (rules (policy p)) @
                      [Open_file (argv ! 1) (open_flags p) 420,
                       Seccomp_export seccomp_export_bpf (Some (policy p)) fd1,
                       Close_file fd1,
                       Open_file (argv ! 2) (open_flags p) 420,
                       Seccomp_export seccomp_export_pfc (Some (policy p)) fd2,
                       Close_file fd2] @ post
                    \<and> (\<forall>c\<in>set post. c = Seccomp_release))))"
proof -
  have 1: "seccomp_filter env p argv = Not_built
      \<and> pipeline env p argv = map Verified (static_assertions (main_body p argv))"
    if "\<exists>b\<in>set (static_assertions (main_body p argv)). \<not> b"
  proof -
    from that have "\<not> list_all id (static_assertions (main_body p argv))"
      by (simp add: list_all_iff)
    then have "seccomp_filter env p argv = Not_built" by (simp add: seccomp_filter_def)
    then show ?thesis by (simp add: pipeline_def)
  qed
  have 2: "static_assertions (main_body p argv) =
       [p CHAR_BIT = 8,
        p SIZEOF_INT = 4 \<and> p INT_MIN = INT32_MIN \<and> p INT_MAX = INT32_MAX,
        p SIZEOF_VOID_PTR = 8,
        p NULL_AS_UINTPTR = 0,
        p MAP_PRIVATE \<noteq> 0,
        p MAP_SHARED \<noteq> 0,
        p O_WRONLY \<noteq> 0,
        p O_RDWR \<noteq> 0,
        p O_CREAT \<noteq> 0]"
    by (simp add: main_body_def build_body_def)
  have 3: "sorted (map step_phase (pipeline env p argv))"
  proof (cases "seccomp_filter env p argv")
    case Not_built
    then show ?thesis
      using sorted_pipeline [of "[]" "static_assertions (main_body p argv)"]
      by (simp add: pipeline_def phases_def)
  next
    case (Exited st v)
    then have "main env p argv = (st, v)"
      by (auto simp: seccomp_filter_def split: if_splits prod.splits)
    then have "sorted (phases (trace v))" by (rule main_sorted)
    then show ?thesis
      using Exited sorted_pipeline [of "trace v" "static_assertions (main_body p argv)"]
      by (simp add: pipeline_def)
  qed
  have 4: "(\<forall>b\<in>set (static_assertions (main_body p argv)). b)
        \<and> pipeline env p argv =
            map Verified (static_assertions (main_body p argv)) @
            map (\<lambda>e. Called (fst e) (snd e)) (trace w)
        \<and> (\<exists>n xs post.
              map fst (trace w) =
                take n
                  ([Seccomp_init SCMP_ACT_KILL_PROCESS, Atexit,
                    Seccomp_attr_set SCMP_FLTATR_ACT_BADARCH (Action_value SCMP_ACT_KILL_PROCESS),
                    Seccomp_attr_set SCMP_FLTATR_CTL_NNP (Flag_value 1),
                    Seccomp_attr_set SCMP_FLTATR_CTL_TSYNC (Flag_value 1)] @
                   map rule_call (rules (policy p))) @ xs @ post
              \<and> (xs \<noteq> [] \<longrightarrow> 5 + length (rules (policy p)) \<le> n)
              \<and> (\<forall>c\<in>set xs. call_phase c = 3)
              \<and> (\<forall>c\<in>set post. c = Seccomp_release))
        \<and> (length argv = 3 \<and> (\<forall>e\<in>set (trace w). \<not> failed e) \<longrightarrow>
              status = 0
              \<and> (\<exists>fd1 fd2 post.
                    map fst (trace w) =
                      [Seccomp_init SCMP_ACT_KILL_PROCESS, Atexit,
                       Seccomp_attr_set SCMP_FLTATR_ACT_BADARCH
                         (Action_value SCMP_ACT_KILL_PROCESS),
                       Seccomp_attr_set SCMP_FLTATR_CTL_NNP (Flag_value 1),
                       Seccomp_attr_set SCMP_FLTATR_CTL_TSYNC (Flag_value 1)] @
                      map rule_call (rules (policy p)) @
                      [Open_file (argv ! 1) (open_flags p) 420,
                       Seccomp_export seccomp_export_bpf (Some (policy p)) fd1,
                       Close_file fd1,
                       Open_file (argv ! 2) (open_flags p) 420,
                       Seccomp_export seccomp_export_pfc (Some (policy p)) fd2,
                       Close_file fd2] @ post
                    \<and> (\<forall>c\<in>set post. c = Seccomp_release)))"
    if m: "seccomp_filter env p argv = Exited status w"
  proof -
    from m have built: "list_all id (static_assertions (main_body p argv))"
      by (auto simp: seccomp_filter_def split: if_splits)
    with m have r: "main env p argv = (status, w)"
      by (auto simp: seccomp_filter_def split: prod.splits)
    from built have a: "\<forall>b\<in>set (static_assertions (main_body p argv)). b"
      by (simp add: list_all_iff)
    from m have b: "pipeline env p argv =
            map Verified (static_assertions (main_body p argv)) @
            map (\<lambda>e. Called (fst e) (snd e)) (trace w)"
      by (simp add: pipeline_def)
    from main_steps(1) [OF r] main_steps(2) [OF r] a b show ?thesis
      by blast
  qed
  from 1 2 3 4 show ?thesis by blast
qed

theorem verification_then_steps_witness:
  "seccomp_filter all_succeed (linux_x86_64(SIZEOF_VOID_PTR := 4))
       [''seccomp-filter'', ''out.bpf'', ''out.pfc''] = Not_built
   \<and> pipeline all_succeed (linux_x86_64(SIZEOF_VOID_PTR := 4))
       [''seccomp-filter'', ''out.bpf'', ''out.pfc'']
     = [Verified True, Verified True, Verified False, Verified True, Verified True,
        Verified True, Verified True, Verified True, Verified True]
   \<and> (\<exists>w fd1 fd2 post.
         seccomp_filter all_succeed linux_x86_64 [''seccomp-filter'', ''out.bpf'', ''out.pfc'']
           = Exited 0 w
         \<and> map fst (trace w) =
             [Seccomp_init SCMP_ACT_KILL_PROCESS, Atexit,
              Seccomp_attr_set SCMP_FLTATR_ACT_BADARCH (Action_value SCMP_ACT_KILL_PROCESS),
              Seccomp_attr_set SCMP_FLTATR_CTL_NNP (Flag_value 1),
              Seccomp_attr_set SCMP_FLTATR_CTL_TSYNC (Flag_value 1)] @
             map rule_call (rules (policy linux_x86_64)) @
             [Open_file ''out.bpf'' (open_flags linux_x86_64) 420,
              Seccomp_export seccomp_export_bpf (Some (policy linux_x86_64)) fd1,
              Close_file fd1,
              Open_file ''out.pfc'' (open_flags linux_x86_64) 420,
              Seccomp_export seccomp_export_pfc (Some (policy linux_x86_64)) fd2,
              Close_file fd2] @ post)
   \<and> sorted (map step_phase
        (pipeline close_fails linux_x86_64 [''seccomp-filter'', ''out.bpf'', ''out.pfc'']))"
proof -
  let ?argv = "[''seccomp-filter'', ''out.bpf'', ''out.pfc'']"
  let ?p32 = "linux_x86_64(SIZEOF_VOID_PTR := 4)"
  note aborts = verification_then_steps [THEN conjunct1, rule_format]
  note assertions = verification_then_steps [THEN conjunct2, THEN conjunct1]
  note ordered = verification_then_steps [THEN conjunct2, THEN conjunct2, THEN conjunct1]
  note complete =
    verification_then_steps [THEN conjunct2, THEN conjunct2, THEN conjunct2, rule_format,
      THEN conjunct2, THEN conjunct2, THEN conjunct2, rule_format]
  have "\<exists>b\<in>set (static_assertions (main_body ?p32 ?argv)). \<not> b"
    by (simp add: assertions)
  from aborts [OF this, of all_succeed]
  have 1: "seccomp_filter all_succeed ?p32 ?argv = Not_built"
    and 2: "pipeline all_succeed ?p32 ?argv
     = [Verified True, Verified True, Verified False, Verified True, Verified True,
        Verified True, Verified True, Verified True, Verified True]"
    by (simp_all add: assertions INT32_MIN_def INT32_MAX_def)
  obtain w where w: "seccomp_filter all_succeed linux_x86_64 ?argv = Exited 0 w"
    and clean: "\<forall>e\<in>set (trace w). \<not> failed e"
    using run_all_succeed_clean by blast
  have "length ?argv = 3 \<and> (\<forall>e\<in>set (trace w). \<not> failed e)" using clean by simp
  from complete [OF w this] w
  have 3: "\<exists>w fd1 fd2 post.
         seccomp_filter all_succeed linux_x86_64 ?argv = Exited 0 w
         \<and> map fst (trace w) =
             [Seccomp_init SCMP_ACT_KILL_PROCESS, Atexit,
              Seccomp_attr_set SCMP_FLTATR_ACT_BADARCH (Action_value SCMP_ACT_KILL_PROCESS),
              Seccomp_attr_set SCMP_FLTATR_CTL_NNP (Flag_value 1),
              Seccomp_attr_set SCMP_FLTATR_CTL_TSYNC (Flag_value 1)] @
             map rule_call (rules (policy linux_x86_64)) @
             [Open_file ''out.bpf'' (open_flags linux_x86_64) 420,
              Seccomp_export seccomp_export_bpf (Some (policy linux_x86_64)) fd1,
              Close_file fd1,
              Open_file ''out.pfc'' (open_flags linux_x86_64) 420,
              Seccomp_export seccomp_export_pfc (Some (policy linux_x86_64)) fd2,
              Close_file fd2] @ post"
    by (simp del: append_assoc append.simps) blast
  from 1 2 3 ordered [of close_fails linux_x86_64 ?argv] show ?thesis by blast
qed

text \<open>
  C5, as the claim states it, fails: a \<open>prlimit64\<close> with a non-null new-limit
  argument for another process (pid 1) matches neither \<open>prlimit64\<close> rule, both of
  which test \<open>pid == 0\<close>, and is killed.
\<close>

theorem prlimit_other_pid_killed:
  "nr \<lparr>nr = ''prlimit64'', args = (\<lambda>n. 0)(0 := 1, 2 := 4096)\<rparr> = ''prlimit64''
   \<and> args \<lparr>nr = ''prlimit64'', args = (\<lambda>n. 0)(0 := 1, 2 := 4096)\<rparr> 2 \<noteq> 0
   \<and> policy_actions (policy linux_x86_64)
         \<lparr>nr = ''prlimit64'', args = (\<lambda>n. 0)(0 := 1, 2 := 4096)\<rparr>
       = {SCMP_ACT_KILL_PROCESS}"
proof -
  have "matching (rules (policy linux_x86_64))
          \<lparr>nr = ''prlimit64'', args = (\<lambda>n. 0)(0 := 1, 2 := 4096)\<rparr> = []"
    by (simp add: matching_filter rules_policy main_body_def build_body_def cmp_shapes arg32_def u32_def
        del: bit.de_Morgan_disj)
  then show ?thesis by (simp add: policy_kills)
qed

text \<open>
  C5, amended. A \<open>prlimit64\<close> on the current process (pid argument 0) with a non-null
  new-limit argument gets the error \<open>EPERM\<close>, and every \<open>socket\<close> gets the error
  \<open>EACCES\<close>, rather than a kill; a \<open>prlimit64\<close> whose pid argument is not 0 is
  killed; and every invocation of a syscall that no rule names is killed.
\<close>

theorem probed_operations_errno:
  "(nr iv = ''prlimit64'' \<and> arg32 iv 0 = 0 \<and> args iv 2 \<noteq> 0 \<longrightarrow>
      policy_actions (policy p) iv = {SCMP_ACT_ERRNO (p EPERM)})
   \<and> (nr iv = ''prlimit64'' \<and> arg32 iv 0 \<noteq> 0 \<longrightarrow>
      policy_actions (policy p) iv = {SCMP_ACT_KILL_PROCESS})
   \<and> (nr iv = ''socket'' \<longrightarrow> policy_actions (policy p) iv = {SCMP_ACT_ERRNO (p EACCES)})
   \<and> (nr iv \<notin> rule_syscall ` set (rules (policy p)) \<longrightarrow>
      policy_actions (policy p) iv = {SCMP_ACT_KILL_PROCESS})"
proof -
  have 1: "policy_actions (policy p) iv = {SCMP_ACT_ERRNO (p EPERM)}"
    if "nr iv = ''prlimit64''" "arg32 iv 0 = 0" "args iv 2 \<noteq> 0"
  proof -
    have "matching (rules (policy p)) iv =
            [\<lparr>rule_action = SCMP_ACT_ERRNO (p EPERM), rule_syscall = ''prlimit64'',
              rule_args = [SCMP_A0_32 SCMP_CMP_EQ [0], SCMP_A2_64 SCMP_CMP_NE [0]]\<rparr>]"
      using that
      by (simp add: matching_filter rules_policy main_body_def build_body_def cmp_shapes u32_def [of 0]
          del: bit.de_Morgan_disj)
    then show ?thesis by (simp add: policy_actions_def)
  qed
  have 2: "policy_actions (policy p) iv = {SCMP_ACT_KILL_PROCESS}"
    if "nr iv = ''prlimit64''" "arg32 iv 0 \<noteq> 0"
  proof -
    have "matching (rules (policy p)) iv = []"
      using that
      by (simp add: matching_filter rules_policy main_body_def build_body_def cmp_shapes u32_def [of 0]
          del: bit.de_Morgan_disj)
    then show ?thesis by (rule policy_kills)
  qed
  have 3: "policy_actions (policy p) iv = {SCMP_ACT_ERRNO (p EACCES)}"
    if "nr iv = ''socket''"
  proof -
    have "matching (rules (policy p)) iv =
            [\<lparr>rule_action = SCMP_ACT_ERRNO (p EACCES), rule_syscall = ''socket'',
              rule_args = []\<rparr>]"
      using that
      by (simp add: matching_filter rules_policy main_body_def build_body_def del: bit.de_Morgan_disj)
    then show ?thesis by (simp add: policy_actions_def)
  qed
  have 4: "policy_actions (policy p) iv = {SCMP_ACT_KILL_PROCESS}"
    if "nr iv \<notin> rule_syscall ` set (rules (policy p))"
    using that by (simp add: uncovered_no_match policy_kills)
  from 1 2 3 4 show ?thesis by blast
qed

theorem probed_operations_errno_witness:
  "policy_actions (policy linux_x86_64) \<lparr>nr = ''prlimit64'', args = (\<lambda>n. 0)(2 := 4096)\<rparr>
     = {SCMP_ACT_ERRNO 1}
   \<and> policy_actions (policy linux_x86_64) \<lparr>nr = ''prlimit64'', args = (\<lambda>n. 0)(0 := 77)\<rparr>
     = {SCMP_ACT_KILL_PROCESS}
   \<and> policy_actions (policy linux_x86_64) \<lparr>nr = ''socket'', args = (\<lambda>n. 2)\<rparr>
     = {SCMP_ACT_ERRNO 13}
   \<and> policy_actions (policy linux_x86_64) \<lparr>nr = ''execve'', args = (\<lambda>n. 0)\<rparr>
     = {SCMP_ACT_KILL_PROCESS}"
proof -
  note errno_prlimit = probed_operations_errno [THEN conjunct1, rule_format]
  note kill_prlimit = probed_operations_errno [THEN conjunct2, THEN conjunct1, rule_format]
  note errno_socket =
    probed_operations_errno [THEN conjunct2, THEN conjunct2, THEN conjunct1, rule_format]
  note kill_uncovered =
    probed_operations_errno [THEN conjunct2, THEN conjunct2, THEN conjunct2, rule_format]
  have 1: "policy_actions (policy linux_x86_64)
             \<lparr>nr = ''prlimit64'', args = (\<lambda>n. 0)(2 := 4096)\<rparr> = {SCMP_ACT_ERRNO 1}"
    using errno_prlimit [of "\<lparr>nr = ''prlimit64'', args = (\<lambda>n. 0)(2 := 4096)\<rparr>" linux_x86_64]
    by (simp add: arg32_def)
  have 2: "policy_actions (policy linux_x86_64)
             \<lparr>nr = ''prlimit64'', args = (\<lambda>n. 0)(0 := 77)\<rparr> = {SCMP_ACT_KILL_PROCESS}"
    using kill_prlimit [of "\<lparr>nr = ''prlimit64'', args = (\<lambda>n. 0)(0 := 77)\<rparr>" linux_x86_64]
    by (simp add: arg32_def)
  have 3: "policy_actions (policy linux_x86_64) \<lparr>nr = ''socket'', args = (\<lambda>n. 2)\<rparr>
             = {SCMP_ACT_ERRNO 13}"
    using errno_socket [of "\<lparr>nr = ''socket'', args = (\<lambda>n. 2)\<rparr>" linux_x86_64] by simp
  have "nr \<lparr>nr = ''execve'', args = (\<lambda>n. 0)\<rparr>
          \<notin> rule_syscall ` set (rules (policy linux_x86_64))"
    by (simp add: rules_policy main_body_def build_body_def del: bit.de_Morgan_disj)
  then have 4: "policy_actions (policy linux_x86_64) \<lparr>nr = ''execve'', args = (\<lambda>n. 0)\<rparr>
             = {SCMP_ACT_KILL_PROCESS}"
    by (rule kill_uncovered)
  from 1 2 3 4 show ?thesis by blast
qed

text \<open>
  C6. Where \<open>EXIT_FAILURE\<close> is not 0, a run that exits with status 0 has opened the
  first file, exported the BPF program, closed the file, then opened the second file,
  exported the pseudo filter code and closed it, all six calls succeeding, both exports
  reading the same context, the policy, with no call between them; before them come only
  calls that create and build the context. A run in which any call failed, in
  particular the \<open>open\<close>, the export or the \<open>close\<close> of either artifact, exits with
  \<open>EXIT_FAILURE\<close>; no run exits with another status than 0 or \<open>EXIT_FAILURE\<close>.
\<close>

theorem export_both_or_fail:
  assumes "p EXIT_FAILURE \<noteq> 0" and "seccomp_filter env p argv = Exited status w"
  shows
    "(status = 0 \<longrightarrow>
        (\<exists>pre fd1 s1 fd2 s2 post.
           trace w = pre @
             [(Open_file (argv ! 1) (open_flags p) 420, fd1),
              (Seccomp_export seccomp_export_bpf (Some (policy p)) fd1, s1),
              (Close_file fd1, 0),
              (Open_file (argv ! 2) (open_flags p) 420, fd2),
              (Seccomp_export seccomp_export_pfc (Some (policy p)) fd2, s2),
              (Close_file fd2, 0)] @ post
           \<and> 0 \<le> fd1 \<and> 0 \<le> s1 \<and> 0 \<le> fd2 \<and> 0 \<le> s2
           \<and> (\<forall>e\<in>set pre. call_phase (fst e) \<le> 2)
           \<and> (\<forall>e\<in>set post. fst e = Seccomp_release)))
     \<and> ((\<exists>e\<in>set (trace w). failed e) \<longrightarrow> status = p EXIT_FAILURE)
     \<and> (status = 0 \<or> status = p EXIT_FAILURE)"
proof -
  from assms(2) have r: "main env p argv = (status, w)"
    by (auto simp: seccomp_filter_def split: if_splits prod.splits)
  let ?body = "build_body p"
  let ?bpf = "Export_filter (argv ! 1) seccomp_export_bpf"
  let ?pfc = "Export_filter (argv ! 2) seccomp_export_pfc"
  have written: "\<exists>pre fd1 s1 fd2 s2 post.
           trace w = pre @
             [(Open_file (argv ! 1) (open_flags p) 420, fd1),
              (Seccomp_export seccomp_export_bpf (Some (policy p)) fd1, s1),
              (Close_file fd1, 0),
              (Open_file (argv ! 2) (open_flags p) 420, fd2),
              (Seccomp_export seccomp_export_pfc (Some (policy p)) fd2, s2),
              (Close_file fd2, 0)] @ post
           \<and> 0 \<le> fd1 \<and> 0 \<le> s1 \<and> 0 \<le> fd2 \<and> 0 \<le> s2
           \<and> (\<forall>e\<in>set pre. call_phase (fst e) \<le> 2)
           \<and> (\<forall>e\<in>set post. fst e = Seccomp_release)"
    if "status = 0"
    using r
  proof (cases rule: main_cases)
    case usage
    with that assms(1) show ?thesis by simp
  next
    case no_ctx
    with that assms(1) show ?thesis by simp
  next
    case failed
    from exec_stmts_Inl(1) [OF failed(3)] that assms(1) show ?thesis by simp
  next
    case (finished wf)
    from finished(3) obtain wa wb where
      a: "exec_stmts env p ?body (started env) = Inr wa" and
      b: "exec_stmt env p ?bpf wa = Inr wb" and
      c: "exec_stmt env p ?pfc wb = Inr wf"
      by (auto simp: main_body_def exec_stmts_append split: sum.splits)
    have ca: "ctx wa = Some (policy p)"
      using exec_stmts_Inr(1) [OF a] started_props(1) [OF finished(2)]
      by (simp add: policy_def)
    have pre: "\<forall>e\<in>set (trace wa). call_phase (fst e) \<le> 2"
      using a build_phase
      by (rule exec_stmts_phase_bound) (simp add: started_props [OF finished(2)])
    from b have b': "export_filter env p (argv ! 1) seccomp_export_bpf
                       (export_name seccomp_export_bpf) wa = Inr wb"
      by (simp add: EXPORT_FILTER_def)
    from c have c': "export_filter env p (argv ! 2) seccomp_export_pfc
                       (export_name seccomp_export_pfc) wb = Inr wf"
      by (simp add: EXPORT_FILTER_def)
    obtain fd1 s1 where 1: "0 \<le> fd1" "0 \<le> s1"
      "trace wb = trace wa @
         [(Open_file (argv ! 1) (open_flags p) 420, fd1),
          (Seccomp_export seccomp_export_bpf (ctx wa) fd1, s1),
          (Close_file fd1, 0)]"
      using export_filter_Inr(3) [OF b'] by blast
    obtain fd2 s2 where 2: "0 \<le> fd2" "0 \<le> s2"
      "trace wf = trace wb @
         [(Open_file (argv ! 2) (open_flags p) 420, fd2),
          (Seccomp_export seccomp_export_pfc (ctx wb) fd2, s2),
          (Close_file fd2, 0)]"
      using export_filter_Inr(3) [OF c'] by blast
    have cb: "ctx wb = Some (policy p)"
      using export_filter_Inr(1) [OF b'] ca by simp
    obtain post where post: "trace w = trace wf @ post" "\<forall>e\<in>set post. fst e = Seccomp_release"
      using finished(4)
      by (auto simp: exit_process_def release_context_def seccomp_release_def split: if_splits)
    have tr: "trace w = trace wa @
             [(Open_file (argv ! 1) (open_flags p) 420, fd1),
              (Seccomp_export seccomp_export_bpf (Some (policy p)) fd1, s1),
              (Close_file fd1, 0),
              (Open_file (argv ! 2) (open_flags p) 420, fd2),
              (Seccomp_export seccomp_export_pfc (Some (policy p)) fd2, s2),
              (Close_file fd2, 0)] @ post"
      using 1(3) 2(3) ca cb post(1) by simp
    from tr 1(1,2) 2(1,2) pre post(2) show ?thesis by blast
  qed
  have failure: "status = p EXIT_FAILURE" if "\<exists>e\<in>set (trace w). failed e"
    using r
  proof (cases rule: main_cases)
    case usage
    then show ?thesis by simp
  next
    case no_ctx
    then show ?thesis by simp
  next
    case failed
    from exec_stmts_Inl(1) [OF failed(3)] show ?thesis .
  next
    case (finished wf)
    have "\<forall>e\<in>set (trace wf). \<not> failed e"
      using finished(3) started_not_failed [OF finished(2)] by (rule exec_stmts_Inr(3))
    moreover have "trace w = trace wf \<or> trace w = trace wf @ [(Seccomp_release, 0)]"
      using finished(4)
      by (auto simp: exit_process_def release_context_def seccomp_release_def split: if_splits)
    ultimately have "\<forall>e\<in>set (trace w). \<not> failed e" by auto
    with that show ?thesis by blast
  qed
  have either: "status = 0 \<or> status = p EXIT_FAILURE"
    using r
  proof (cases rule: main_cases)
    case (finished wf)
    then show ?thesis by (simp add: exit_process_def)
  next
    case failed
    from exec_stmts_Inl(1) [OF failed(3)] show ?thesis by simp
  qed simp_all
  from written failure either show ?thesis by blast
qed

theorem export_both_or_fail_witness:
  "linux_x86_64 EXIT_FAILURE \<noteq> 0
   \<and> (\<exists>w. seccomp_filter all_succeed linux_x86_64 [''seccomp-filter'', ''out.bpf'', ''out.pfc'']
            = Exited 0 w
          \<and> (\<exists>pre fd1 s1 fd2 s2 post.
               trace w = pre @
                 [(Open_file ''out.bpf'' (open_flags linux_x86_64) 420, fd1),
                  (Seccomp_export seccomp_export_bpf (Some (policy linux_x86_64)) fd1, s1),
                  (Close_file fd1, 0),
                  (Open_file ''out.pfc'' (open_flags linux_x86_64) 420, fd2),
                  (Seccomp_export seccomp_export_pfc (Some (policy linux_x86_64)) fd2, s2),
                  (Close_file fd2, 0)] @ post))
   \<and> (\<exists>w. seccomp_filter close_fails linux_x86_64 [''seccomp-filter'', ''out.bpf'', ''out.pfc'']
            = Exited (linux_x86_64 EXIT_FAILURE) w
          \<and> (Close_file 0, - 1) \<in> set (trace w)
          \<and> failed (Close_file 0, - 1))"
proof -
  let ?argv = "[''seccomp-filter'', ''out.bpf'', ''out.pfc'']"
  have nz: "linux_x86_64 EXIT_FAILURE \<noteq> 0" by simp
  obtain w where w: "seccomp_filter all_succeed linux_x86_64 ?argv = Exited 0 w"
    using run_all_succeed by blast
  from export_both_or_fail [OF nz w, THEN conjunct1] w
  have 1: "\<exists>w. seccomp_filter all_succeed linux_x86_64 ?argv = Exited 0 w
          \<and> (\<exists>pre fd1 s1 fd2 s2 post.
               trace w = pre @
                 [(Open_file ''out.bpf'' (open_flags linux_x86_64) 420, fd1),
                  (Seccomp_export seccomp_export_bpf (Some (policy linux_x86_64)) fd1, s1),
                  (Close_file fd1, 0),
                  (Open_file ''out.pfc'' (open_flags linux_x86_64) 420, fd2),
                  (Seccomp_export seccomp_export_pfc (Some (policy linux_x86_64)) fd2, s2),
                  (Close_file fd2, 0)] @ post)"
    by (simp del: append_assoc append.simps) blast
  obtain v pre where v: "main close_fails linux_x86_64 ?argv = (1, v)"
    and tr: "trace v = pre @ [(Close_file 0, - 1), (Seccomp_release, 0)]"
    using run_close_fails by blast
  from v have m: "seccomp_filter close_fails linux_x86_64 ?argv = Exited 1 v"
    by (simp add: seccomp_filter_def linux_builds)
  from tr have inv: "(Close_file 0, - 1) \<in> set (trace v)" by simp
  have f: "failed (Close_file 0, - 1)" by simp
  from inv f have "\<exists>e\<in>set (trace v). failed e" by blast
  with export_both_or_fail [OF nz m, THEN conjunct2, THEN conjunct1]
  have "(1::int) = linux_x86_64 EXIT_FAILURE" by blast
  with m inv f have 2: "\<exists>w. seccomp_filter close_fails linux_x86_64 ?argv
            = Exited (linux_x86_64 EXIT_FAILURE) w
          \<and> (Close_file 0, - 1) \<in> set (trace w)
          \<and> failed (Close_file 0, - 1)"
    by auto
  from nz 1 2 show ?thesis by blast
qed

text \<open>
  C7. Every rule of the table is satisfiable: its comparators test pairwise different
  argument indices, and there is an invocation of its syscall on which all of them hold.
\<close>

theorem rules_satisfiable:
  "\<forall>r\<in>set (rules (policy p)).
     distinct (map cmp_arg (rule_args r))
     \<and> (\<exists>iv. nr iv = rule_syscall r \<and> (\<forall>c\<in>set (rule_args r). cmp_holds c iv))"
proof -
  have "\<forall>r\<in>set (rules (policy p)).
          distinct (map cmp_arg (rule_args r)) \<and> rule_matches r (satisfying r)"
    by (simp add: rules_policy main_body_def build_body_def rule_matches_def satisfying_def cmp_holds.simps
        SCMP_CMP32_def SCMP_CMP64_def reg_def ucast32_take take_bit_word_eq_self u32_def [of 0]
        del: bit.de_Morgan_disj)
  then have "\<forall>r\<in>set (rules (policy p)).
          distinct (map cmp_arg (rule_args r))
          \<and> nr (satisfying r) = rule_syscall r
          \<and> (\<forall>c\<in>set (rule_args r). cmp_holds c (satisfying r))"
    by (simp add: rule_matches_def cmps_hold_iff satisfying_def)
  then show ?thesis by blast
qed

theorem rules_satisfiable_witness:
  "distinct (map cmp_arg [SCMP_A0_32 SCMP_CMP_EQ [0], SCMP_A2_64 SCMP_CMP_NE [0]])
   \<and> (\<exists>iv. nr iv = ''prlimit64''
         \<and> cmp_holds (SCMP_A0_32 SCMP_CMP_EQ [0]) iv
         \<and> cmp_holds (SCMP_A2_64 SCMP_CMP_NE [0]) iv)"
proof -
  have "\<lparr>rule_action = SCMP_ACT_ERRNO 1, rule_syscall = ''prlimit64'',
         rule_args = [SCMP_A0_32 SCMP_CMP_EQ [0], SCMP_A2_64 SCMP_CMP_NE [0]]\<rparr>
        \<in> set (rules (policy linux_x86_64))"
    by (simp add: rules_policy main_body_def build_body_def del: bit.de_Morgan_disj)
  from rules_satisfiable [rule_format, OF this] show ?thesis by simp
qed

text \<open>
  C8. The \<open>set_attribute\<close> statements of \<open>main\<close> are exactly three, its first three
  statements: the action on a bad architecture is kill-process, no-new-privileges is 1
  and thread synchronisation is 1. Running them changes the attributes of the context
  by these three and nothing else of it; each \<open>set_attribute\<close> that returns leaves the
  rules and the default action as they were.
\<close>

theorem attribute_configurator:
  "stmt_attrs (main_body p argv) =
     [(SCMP_FLTATR_ACT_BADARCH, Action_value SCMP_ACT_KILL_PROCESS),
      (SCMP_FLTATR_CTL_NNP, Flag_value 1),
      (SCMP_FLTATR_CTL_TSYNC, Flag_value 1)]
   \<and> take 3 (main_body p argv) =
       map (\<lambda>(attr, v). Set_attribute attr v) (stmt_attrs (main_body p argv))
   \<and> (exec_stmts env p (take 3 (main_body p argv)) w = Inr w' \<longrightarrow>
        ctx w' = map_option
                   (\<lambda>c. c\<lparr>attrs := (attrs c)
                            (SCMP_FLTATR_ACT_BADARCH \<mapsto> Action_value SCMP_ACT_KILL_PROCESS,
                             SCMP_FLTATR_CTL_NNP \<mapsto> Flag_value 1,
                             SCMP_FLTATR_CTL_TSYNC \<mapsto> Flag_value 1)\<rparr>)
                   (ctx w))
   \<and> (set_attribute env p attr v w = Inr w' \<longrightarrow>
        map_option rules (ctx w') = map_option rules (ctx w)
        \<and> map_option act_default (ctx w') = map_option act_default (ctx w))"
proof -
  have 1: "stmt_attrs (main_body p argv) =
     [(SCMP_FLTATR_ACT_BADARCH, Action_value SCMP_ACT_KILL_PROCESS),
      (SCMP_FLTATR_CTL_NNP, Flag_value 1),
      (SCMP_FLTATR_CTL_TSYNC, Flag_value 1)]"
    by (simp add: main_body_def build_body_def)
  have 2: "take 3 (main_body p argv) =
       map (\<lambda>(attr, v). Set_attribute attr v) (stmt_attrs (main_body p argv))"
    unfolding 1 by (simp add: main_body_def build_body_def)
  have 3: "ctx w' = map_option
                   (\<lambda>c. c\<lparr>attrs := (attrs c)
                            (SCMP_FLTATR_ACT_BADARCH \<mapsto> Action_value SCMP_ACT_KILL_PROCESS,
                             SCMP_FLTATR_CTL_NNP \<mapsto> Flag_value 1,
                             SCMP_FLTATR_CTL_TSYNC \<mapsto> Flag_value 1)\<rparr>)
                   (ctx w)"
    if "exec_stmts env p (take 3 (main_body p argv)) w = Inr w'"
    using exec_stmts_Inr(1) [OF that] unfolding 2 1
    by (cases "ctx w") (simp_all add: attr_set_def)
  have 4: "map_option rules (ctx w') = map_option rules (ctx w)
        \<and> map_option act_default (ctx w') = map_option act_default (ctx w)"
    if "set_attribute env p attr v w = Inr w'"
    using set_attribute_Inr(1) [OF that]
    by (cases "ctx w") (simp_all add: attr_set_def)
  from 1 2 3 4 show ?thesis by blast
qed

theorem attribute_configurator_witness:
  "\<exists>w'. exec_stmts all_succeed linux_x86_64
           (take 3 (main_body linux_x86_64 [''seccomp-filter'', ''out.bpf'', ''out.pfc'']))
           (started all_succeed) = Inr w'
        \<and> ctx w' = Some \<lparr>act_default = SCMP_ACT_KILL_PROCESS,
                          attrs = [SCMP_FLTATR_ACT_BADARCH \<mapsto> Action_value SCMP_ACT_KILL_PROCESS,
                                   SCMP_FLTATR_CTL_NNP \<mapsto> Flag_value 1,
                                   SCMP_FLTATR_CTL_TSYNC \<mapsto> Flag_value 1],
                          rules = []\<rparr>"
proof -
  let ?argv = "[''seccomp-filter'', ''out.bpf'', ''out.pfc'']"
  note configured =
    attribute_configurator [THEN conjunct2, THEN conjunct2, THEN conjunct1, rule_format]
  have 0: "result all_succeed 0 \<noteq> 0" by (simp add: all_succeed_def)
  have "\<forall>k\<ge>length (trace (started all_succeed)). result all_succeed k = 0"
    by (simp add: started_props [OF 0]) (simp add: all_succeed_def)
  then obtain w' where w':
    "exec_stmts all_succeed linux_x86_64 (take 3 (main_body linux_x86_64 ?argv))
       (started all_succeed) = Inr w'"
    using exec_stmts_succeeds by blast
  from configured [OF w'] have "ctx w' = Some \<lparr>act_default = SCMP_ACT_KILL_PROCESS,
                          attrs = [SCMP_FLTATR_ACT_BADARCH \<mapsto> Action_value SCMP_ACT_KILL_PROCESS,
                                   SCMP_FLTATR_CTL_NNP \<mapsto> Flag_value 1,
                                   SCMP_FLTATR_CTL_TSYNC \<mapsto> Flag_value 1],
                          rules = []\<rparr>"
    by (simp add: started_props [OF 0] new_ctx_def)
  with w' show ?thesis by blast
qed

text \<open>
  C9. For \<open>open\<close> (flags in argument 1) and \<open>openat\<close> (flags in argument 2), a rule
  matches iff the 32-bit flags argument has no bit set outside
  \<open>O_RDONLY | O_BINARY | O_CLOEXEC | O_PATH | O_DIRECTORY\<close>; the policy then allows,
  and kills otherwise. In particular, where \<open>O_WRONLY\<close>, \<open>O_RDWR\<close> or \<open>O_CREAT\<close> is
  set in the flags and is not among the allowed bits, no rule matches and the invocation
  gets the default kill-process action, not an error.
\<close>

theorem open_read_only:
  assumes "nr iv = ''open'' \<and> n = 1 \<or> nr iv = ''openat'' \<and> n = 2"
  shows
    "((\<exists>r\<in>set (rules (policy p)). rule_matches r iv) \<longleftrightarrow>
        (\<forall>k<32. bit (args iv n) k \<longrightarrow>
           bit (p O_RDONLY OR p O_BINARY OR p O_CLOEXEC OR p O_PATH OR p O_DIRECTORY) k))
     \<and> policy_actions (policy p) iv =
         (if only_bits (arg32 iv n)
               (p O_RDONLY OR p O_BINARY OR p O_CLOEXEC OR p O_PATH OR p O_DIRECTORY)
          then {SCMP_ACT_ALLOW} else {SCMP_ACT_KILL_PROCESS})
     \<and> (\<forall>f\<in>{O_WRONLY, O_RDWR, O_CREAT}.
          has_bits (arg32 iv n) (p f)
          \<and> \<not> only_bits (u32 (p f))
                (p O_RDONLY OR p O_BINARY OR p O_CLOEXEC OR p O_PATH OR p O_DIRECTORY)
          \<longrightarrow> (\<forall>r\<in>set (rules (policy p)). \<not> rule_matches r iv)
              \<and> policy_actions (policy p) iv = {SCMP_ACT_KILL_PROCESS})"
proof -
  let ?A = "p O_RDONLY OR p O_BINARY OR p O_CLOEXEC OR p O_PATH OR p O_DIRECTORY"
  let ?r = "\<lparr>rule_action = SCMP_ACT_ALLOW, rule_syscall = nr iv,
             rule_args = [SCMP_CMP32 n SCMP_CMP_MASKED_EQ [NOT ?A, 0]]\<rparr>"
  have m: "matching (rules (policy p)) iv = (if only_bits (arg32 iv n) ?A then [?r] else [])"
    using assms
  proof (elim disjE conjE)
    assume "nr iv = ''open''" "n = 1"
    then show ?thesis
      by (simp add: matching_filter rules_policy main_body_def build_body_def cmp_shapes
          del: bit.de_Morgan_disj)
  next
    assume "nr iv = ''openat''" "n = 2"
    then show ?thesis
      by (simp add: matching_filter rules_policy main_body_def build_body_def cmp_shapes
          del: bit.de_Morgan_disj)
  qed
  have 1: "(\<exists>r\<in>set (rules (policy p)). rule_matches r iv) \<longleftrightarrow>
        (\<forall>k<32. bit (args iv n) k \<longrightarrow> bit ?A k)"
  proof (cases "only_bits (arg32 iv n) ?A")
    case True
    with m have "matching (rules (policy p)) iv \<noteq> []" by simp
    then have "\<exists>r\<in>set (rules (policy p)). rule_matches r iv" by (simp add: matching_Nil)
    moreover have "\<forall>k<32. bit (args iv n) k \<longrightarrow> bit ?A k"
      using True unfolding only_bits_iff .
    ultimately show ?thesis by blast
  next
    case False
    with m have "matching (rules (policy p)) iv = []" by simp
    then have "\<not> (\<exists>r\<in>set (rules (policy p)). rule_matches r iv)" by (simp add: matching_Nil)
    moreover have "\<not> (\<forall>k<32. bit (args iv n) k \<longrightarrow> bit ?A k)"
      using False unfolding only_bits_iff .
    ultimately show ?thesis by blast
  qed
  have 2: "policy_actions (policy p) iv =
         (if only_bits (arg32 iv n) ?A then {SCMP_ACT_ALLOW} else {SCMP_ACT_KILL_PROCESS})"
    using m by (simp add: policy_actions_def policy_default)
  have 3: "(\<forall>r\<in>set (rules (policy p)). \<not> rule_matches r iv)
              \<and> policy_actions (policy p) iv = {SCMP_ACT_KILL_PROCESS}"
    if "has_bits (arg32 iv n) (p f)" "\<not> only_bits (u32 (p f)) ?A" for f
  proof -
    from that have "\<not> only_bits (arg32 iv n) ?A" by (rule has_bits_not_only)
    with m have "matching (rules (policy p)) iv = []" by simp
    then show ?thesis by (simp add: matching_Nil policy_kills)
  qed
  from 1 2 3 show ?thesis by blast
qed

theorem open_read_only_witness:
  "policy_actions (policy linux_x86_64)
     \<lparr>nr = ''open'', args = (\<lambda>n. 0)(1 := 524288)\<rparr> = {SCMP_ACT_ALLOW}
   \<and> has_bits (arg32 \<lparr>nr = ''openat'', args = (\<lambda>n. 0)(2 := 577)\<rparr> 2) (linux_x86_64 O_CREAT)
   \<and> \<not> only_bits (u32 (linux_x86_64 O_CREAT))
         (linux_x86_64 O_RDONLY OR linux_x86_64 O_BINARY OR linux_x86_64 O_CLOEXEC
          OR linux_x86_64 O_PATH OR linux_x86_64 O_DIRECTORY)
   \<and> matching (rules (policy linux_x86_64))
        \<lparr>nr = ''openat'', args = (\<lambda>n. 0)(2 := 577)\<rparr> = []
   \<and> policy_actions (policy linux_x86_64)
        \<lparr>nr = ''openat'', args = (\<lambda>n. 0)(2 := 577)\<rparr> = {SCMP_ACT_KILL_PROCESS}"
proof -
  let ?rd = "\<lparr>nr = ''open'', args = (\<lambda>n. 0)(1 := 524288)\<rparr>"
  let ?wr = "\<lparr>nr = ''openat'', args = (\<lambda>n. 0)(2 := 577)\<rparr>"
  have rd: "nr ?rd = ''open'' \<and> (1::nat) = 1 \<or> nr ?rd = ''openat'' \<and> (1::nat) = 2" by simp
  have wr: "nr ?wr = ''open'' \<and> (2::nat) = 1 \<or> nr ?wr = ''openat'' \<and> (2::nat) = 2" by simp
  have 1: "policy_actions (policy linux_x86_64) ?rd = {SCMP_ACT_ALLOW}"
    by (simp only: open_read_only [OF rd, THEN conjunct2, THEN conjunct1])
       (simp add: only_bits_def arg32_def u32_def)
  have 2: "has_bits (arg32 ?wr 2) (linux_x86_64 O_CREAT)"
    by (simp add: has_bits_def arg32_def u32_def)
  have 3: "\<not> only_bits (u32 (linux_x86_64 O_CREAT))
         (linux_x86_64 O_RDONLY OR linux_x86_64 O_BINARY OR linux_x86_64 O_CLOEXEC
          OR linux_x86_64 O_PATH OR linux_x86_64 O_DIRECTORY)"
    by (simp add: only_bits_def u32_def)
  have "O_CREAT \<in> {O_WRONLY, O_RDWR, O_CREAT}" by simp
  from open_read_only [OF wr, THEN conjunct2, THEN conjunct2, rule_format, OF this]
    2 3
  have "(\<forall>r\<in>set (rules (policy linux_x86_64)). \<not> rule_matches r ?wr)
        \<and> policy_actions (policy linux_x86_64) ?wr = {SCMP_ACT_KILL_PROCESS}"
    by blast
  with 1 2 3 show ?thesis by (simp add: matching_Nil)
qed

text \<open>
  C10. \<open>clock_gettime\<close> is allowed iff its first argument, a 32-bit clock identifier,
  equals \<open>CLOCK_REALTIME\<close>; with any other clock identifier no rule matches and the
  policy kills. \<open>time\<close> and \<open>gettimeofday\<close> are allowed whatever their arguments:
  their rules have no comparators.
\<close>

theorem clock_gettime_realtime_only:
  "(nr iv = ''clock_gettime'' \<longrightarrow>
      ((\<exists>r\<in>set (rules (policy p)). rule_matches r iv) \<longleftrightarrow> arg32 iv 0 = u32 (p CLOCK_REALTIME))
      \<and> policy_actions (policy p) iv =
          (if arg32 iv 0 = u32 (p CLOCK_REALTIME)
           then {SCMP_ACT_ALLOW} else {SCMP_ACT_KILL_PROCESS}))
   \<and> (nr iv = ''time'' \<or> nr iv = ''gettimeofday'' \<longrightarrow>
        policy_actions (policy p) iv = {SCMP_ACT_ALLOW})
   \<and> filter (\<lambda>r. rule_syscall r = ''time'' \<or> rule_syscall r = ''gettimeofday'')
        (rules (policy p))
      = [\<lparr>rule_action = SCMP_ACT_ALLOW, rule_syscall = ''time'', rule_args = []\<rparr>,
         \<lparr>rule_action = SCMP_ACT_ALLOW, rule_syscall = ''gettimeofday'', rule_args = []\<rparr>]"
proof -
  let ?r = "\<lparr>rule_action = SCMP_ACT_ALLOW, rule_syscall = ''clock_gettime'',
             rule_args = [SCMP_A0_32 SCMP_CMP_EQ [p CLOCK_REALTIME]]\<rparr>"
  have m: "matching (rules (policy p)) iv =
             (if arg32 iv 0 = u32 (p CLOCK_REALTIME) then [?r] else [])"
    if "nr iv = ''clock_gettime''"
    using that
    by (simp add: matching_filter rules_policy main_body_def build_body_def cmp_shapes
        del: bit.de_Morgan_disj)
  have 1: "((\<exists>r\<in>set (rules (policy p)). rule_matches r iv) \<longleftrightarrow>
              arg32 iv 0 = u32 (p CLOCK_REALTIME))
      \<and> policy_actions (policy p) iv =
          (if arg32 iv 0 = u32 (p CLOCK_REALTIME)
           then {SCMP_ACT_ALLOW} else {SCMP_ACT_KILL_PROCESS})"
    if "nr iv = ''clock_gettime''"
  proof (cases "arg32 iv 0 = u32 (p CLOCK_REALTIME)")
    case True
    with m [OF that] have ms: "matching (rules (policy p)) iv = [?r]" by simp
    then have "matching (rules (policy p)) iv \<noteq> []" by simp
    then have "\<exists>r\<in>set (rules (policy p)). rule_matches r iv" by (simp add: matching_Nil)
    with True ms show ?thesis by (simp add: policy_actions_def)
  next
    case False
    with m [OF that] have ms: "matching (rules (policy p)) iv = []" by simp
    then have "\<not> (\<exists>r\<in>set (rules (policy p)). rule_matches r iv)" by (simp add: matching_Nil)
    with False ms show ?thesis by (simp add: policy_kills)
  qed
  have 2: "policy_actions (policy p) iv = {SCMP_ACT_ALLOW}"
    if "nr iv = ''time'' \<or> nr iv = ''gettimeofday''"
  proof -
    have "matching (rules (policy p)) iv =
            [\<lparr>rule_action = SCMP_ACT_ALLOW, rule_syscall = nr iv, rule_args = []\<rparr>]"
      using that
    proof
      assume "nr iv = ''time''"
      then show ?thesis
        by (simp add: matching_filter rules_policy main_body_def build_body_def del: bit.de_Morgan_disj)
    next
      assume "nr iv = ''gettimeofday''"
      then show ?thesis
        by (simp add: matching_filter rules_policy main_body_def build_body_def del: bit.de_Morgan_disj)
    qed
    then show ?thesis by (simp add: policy_actions_def)
  qed
  have 3: "filter (\<lambda>r. rule_syscall r = ''time'' \<or> rule_syscall r = ''gettimeofday'')
        (rules (policy p))
      = [\<lparr>rule_action = SCMP_ACT_ALLOW, rule_syscall = ''time'', rule_args = []\<rparr>,
         \<lparr>rule_action = SCMP_ACT_ALLOW, rule_syscall = ''gettimeofday'', rule_args = []\<rparr>]"
    by (simp add: rules_policy main_body_def build_body_def del: bit.de_Morgan_disj)
  from 1 2 3 show ?thesis by blast
qed

theorem clock_gettime_realtime_only_witness:
  "policy_actions (policy linux_x86_64) \<lparr>nr = ''clock_gettime'', args = (\<lambda>n. 0)\<rparr>
     = {SCMP_ACT_ALLOW}
   \<and> policy_actions (policy linux_x86_64) \<lparr>nr = ''clock_gettime'', args = (\<lambda>n. 0)(0 := 1)\<rparr>
     = {SCMP_ACT_KILL_PROCESS}
   \<and> policy_actions (policy linux_x86_64) \<lparr>nr = ''gettimeofday'', args = (\<lambda>n. 9)\<rparr>
     = {SCMP_ACT_ALLOW}"
proof -
  note clock = clock_gettime_realtime_only [THEN conjunct1, rule_format, THEN conjunct2]
  note unconditional =
    clock_gettime_realtime_only [THEN conjunct2, THEN conjunct1, rule_format]
  have 1: "policy_actions (policy linux_x86_64) \<lparr>nr = ''clock_gettime'', args = (\<lambda>n. 0)\<rparr>
     = {SCMP_ACT_ALLOW}"
    using clock [of "\<lparr>nr = ''clock_gettime'', args = (\<lambda>n. 0)\<rparr>" linux_x86_64]
    by (simp add: arg32_def u32_def)
  have 2: "policy_actions (policy linux_x86_64)
             \<lparr>nr = ''clock_gettime'', args = (\<lambda>n. 0)(0 := 1)\<rparr> = {SCMP_ACT_KILL_PROCESS}"
    using clock [of "\<lparr>nr = ''clock_gettime'', args = (\<lambda>n. 0)(0 := 1)\<rparr>" linux_x86_64]
    by (simp add: arg32_def u32_def)
  have 3: "policy_actions (policy linux_x86_64) \<lparr>nr = ''gettimeofday'', args = (\<lambda>n. 9)\<rparr>
     = {SCMP_ACT_ALLOW}"
    using unconditional [of "\<lparr>nr = ''gettimeofday'', args = (\<lambda>n. 9)\<rparr>" linux_x86_64]
    by simp
  from 1 2 3 show ?thesis by blast
qed

end
